theory Spec2Isabelle
  imports Complex_Main "HOL-Library.Sublist"
begin

section \<open>The brace-aware tokenizer: \<open>GetT3RequestInfo\<close>\<close>

text \<open>
  Python strings are modelled as \<^typ>\<open>string\<close>, one \<^typ>\<open>char\<close> per code point, so the
  development covers text whose code points are below 256. The \<open>delimiter\<close> argument is
  a Python \<open>str\<close> or \<open>None\<close> (the default), hence a \<^typ>\<open>string option\<close>; the test
  \<open>string[i] == delimiter\<close> compares the one-character string \<open>[c]\<close> with it.

  The \<open>for\<close> loop of lines 36 to 47 carries three locals: the list \<open>separated\<close> of
  finished tokens, the buffer \<open>entry\<close> and the flag \<open>inside_brace\<close>. The loop function
  takes them as arguments and returns them when the characters are used up.
\<close>

fun GetT3RequestInfo_loop ::
  "string \<Rightarrow> string option \<Rightarrow> string list \<Rightarrow> string \<Rightarrow> bool \<Rightarrow> string list \<times> string \<times> bool" where
  "GetT3RequestInfo_loop [] delimiter separated entry inside_brace =
     (separated, entry, inside_brace)"
| "GetT3RequestInfo_loop (c # cs) delimiter separated entry inside_brace =
     (if c = CHR ''{'' then GetT3RequestInfo_loop cs delimiter separated (entry @ [c]) True
      else if c = CHR ''}'' then GetT3RequestInfo_loop cs delimiter separated (entry @ [c]) False
      else if Some [c] = delimiter \<and> inside_brace = False
        then GetT3RequestInfo_loop cs delimiter (separated @ [entry]) [] inside_brace
      else GetT3RequestInfo_loop cs delimiter separated (entry @ [c]) inside_brace)"

definition GetT3RequestInfo :: "string \<Rightarrow> string option \<Rightarrow> string list" where
  "GetT3RequestInfo str delimiter =
     (case GetT3RequestInfo_loop str delimiter [] [] False of
        (separated, entry, inside_brace) \<Rightarrow>
          if length entry \<noteq> 0 then separated @ [entry] else separated)"

subsection \<open>What the specification says about splitting\<close>

text \<open>
  The specification speaks of delimiter occurrences outside and inside braces of a string
  whose braces are balanced and not nested. These notions are written down here from the
  specification's words, by positions and brace counts, with no scanning state.

  \<open>depth s i\<close> is the number of opening braces minus the number of closing braces among
  the first \<open>i\<close> characters. A string is balanced and not nested when the depth of every
  prefix is 0 or 1 and the depth of the whole string is 0.
\<close>

definition depth :: "string \<Rightarrow> nat \<Rightarrow> int" where
  "depth s i = int (count_list (take i s) CHR ''{'') - int (count_list (take i s) CHR ''}'')"

definition balanced_flat :: "string \<Rightarrow> bool" where
  "balanced_flat s \<longleftrightarrow>
     list_all (\<lambda>i. depth s i = 0 \<or> depth s i = 1) [0..<Suc (length s)] \<and> depth s (length s) = 0"

text \<open>
  Position \<open>i\<close> belongs to a brace-enclosed span (the two braces included) when it holds
  the opening brace or when a brace is open before it. A split point is a position that
  holds the delimiter and belongs to no such span.
\<close>

definition in_brace_span :: "string \<Rightarrow> nat \<Rightarrow> bool" where
  "in_brace_span s i \<longleftrightarrow> s ! i = CHR ''{'' \<or> 0 < depth s i"

definition outside_delims :: "string \<Rightarrow> char \<Rightarrow> nat list" where
  "outside_delims s d = filter (\<lambda>i. s ! i = d \<and> \<not> in_brace_span s i) [0..<length s]"

text \<open>
  \<open>pieces a s ps\<close> cuts \<open>s\<close>, from position \<open>a\<close> on, at the increasing positions \<open>ps\<close>:
  each piece runs up to the next cut position, which is left out, and the last piece runs
  to the end of the string.
\<close>

fun pieces :: "nat \<Rightarrow> string \<Rightarrow> nat list \<Rightarrow> string list" where
  "pieces a s [] = [drop a s]"
| "pieces a s (p # ps) = take (p - a) (drop a s) # pieces (Suc p) s ps"

definition drop_final_empty :: "string list \<Rightarrow> string list" where
  "drop_final_empty xs = (if xs \<noteq> [] \<and> last xs = [] then butlast xs else xs)"

definition spec_tokenize :: "string \<Rightarrow> char \<Rightarrow> string list" where
  "spec_tokenize s d = drop_final_empty (pieces 0 s (outside_delims s d))"

section \<open>Python built-ins used by the program\<close>

text \<open>
  Every exception the program can meet is a value of \<open>py_error\<close>, and a computation that
  may raise returns \<open>py_error + 'a\<close> with \<open>Inl\<close> for the exception.
\<close>

datatype py_error = ValueError | KeyError | IndexError | TypeError | AttributeError | OverflowError

text \<open>
  \<open>str.strip()\<close> removes the characters for which \<open>str.isspace()\<close> holds; below code
  point 256 these are the twelve listed here. \<open>str.strip(chars)\<close> removes the characters
  of \<open>chars\<close> instead.
\<close>

definition py_isspace :: "char \<Rightarrow> bool" where
  "py_isspace c \<longleftrightarrow>
     (of_char c :: nat) \<in> {0x09, 0x0A, 0x0B, 0x0C, 0x0D, 0x1C, 0x1D, 0x1E, 0x1F, 0x20, 0x85, 0xA0}"

definition py_strip :: "string \<Rightarrow> string" where
  "py_strip s = rev (dropWhile py_isspace (rev (dropWhile py_isspace s)))"

definition py_strip_chars :: "string \<Rightarrow> string \<Rightarrow> string" where
  "py_strip_chars chars s =
     rev (dropWhile (\<lambda>c. c \<in> set chars) (rev (dropWhile (\<lambda>c. c \<in> set chars) s)))"

text \<open>
  \<open>s.split(sep)\<close> for a one-character separator cuts at every occurrence and keeps the
  empty pieces, so the result is never empty. \<open>s.split(sep, 1)\<close> cuts at the first
  occurrence only.
\<close>

fun py_split :: "char \<Rightarrow> string \<Rightarrow> string list" where
  "py_split sep [] = [[]]"
| "py_split sep (c # cs) =
     (if c = sep then [] # py_split sep cs
      else (case py_split sep cs of [] \<Rightarrow> [[c]] | x # xs \<Rightarrow> (c # x) # xs))"

definition py_split_max1 :: "char \<Rightarrow> string \<Rightarrow> string list" where
  "py_split_max1 sep s =
     (if sep \<in> set s then [takeWhile (\<lambda>c. c \<noteq> sep) s, tl (dropWhile (\<lambda>c. c \<noteq> sep) s)]
      else [s])"

subsection \<open>\<open>int(str)\<close>\<close>

text \<open>
  \<open>int\<close> of a string removes surrounding whitespace (for code points below 256: tab to
  carriage return, space, 0x85 and 0xA0; the separators 0x1C to 0x1F are not removed),
  reads an optional sign and then decimal digits, where single underscores may stand
  between digits. Anything else raises \<open>ValueError\<close>. The interpreter's configurable limit
  on the number of digits is not part of the model.
\<close>

definition num_space :: "char \<Rightarrow> bool" where
  "num_space c \<longleftrightarrow> (of_char c :: nat) \<in> {0x09, 0x0A, 0x0B, 0x0C, 0x0D, 0x20, 0x85, 0xA0}"

definition num_strip :: "string \<Rightarrow> string" where
  "num_strip s = rev (dropWhile num_space (rev (dropWhile num_space s)))"

definition is_digit :: "char \<Rightarrow> bool" where
  "is_digit c \<longleftrightarrow> c \<in> set ''0123456789''"

definition digit_val :: "char \<Rightarrow> nat" where
  "digit_val c = of_char c - 48"

definition nat_of_digits :: "string \<Rightarrow> nat" where
  "nat_of_digits ds = foldl (\<lambda>a c. 10 * a + digit_val c) 0 ds"

text \<open>
  \<open>digitpart s\<close> is the digits of \<open>s\<close> with the underscores removed when \<open>s\<close> is a digit
  followed by digits, each preceded by at most one underscore; otherwise \<open>None\<close>.
\<close>

fun digitpart :: "string \<Rightarrow> string option" where
  "digitpart [] = None"
| "digitpart [c] = (if is_digit c then Some [c] else None)"
| "digitpart (c # c' # cs) =
     (if is_digit c
      then (if c' = CHR ''_'' then map_option (Cons c) (digitpart cs)
            else map_option (Cons c) (digitpart (c' # cs)))
      else None)"

definition split_sign :: "string \<Rightarrow> bool \<times> string" where
  "split_sign s =
     (case s of
        [] \<Rightarrow> (False, [])
      | c # r \<Rightarrow> if c = CHR ''-'' then (True, r) else if c = CHR ''+'' then (False, r) else (False, s))"

definition py_int :: "string \<Rightarrow> py_error + int" where
  "py_int s =
     (case split_sign (num_strip s) of
        (neg, body) \<Rightarrow>
          (case digitpart body of
             None \<Rightarrow> Inl ValueError
           | Some ds \<Rightarrow> Inr (if neg then - int (nat_of_digits ds) else int (nat_of_digits ds))))"

text \<open>\<open>list(map(int, value_list))\<close> stops at the first piece that \<open>int\<close> rejects.\<close>

fun map_int :: "string list \<Rightarrow> py_error + int list" where
  "map_int [] = Inr []"
| "map_int (p # ps) =
     (case py_int p of
        Inl e \<Rightarrow> Inl e
      | Inr n \<Rightarrow> (case map_int ps of Inl e \<Rightarrow> Inl e | Inr ns \<Rightarrow> Inr (n # ns)))"

subsection \<open>\<open>float(str)\<close> and \<open>int(float)\<close>\<close>

text \<open>
  A Python float is an IEEE 754 binary64 value: a finite number, which is a rational, an
  infinity or a NaN. The sign of zero plays no role for \<open>int\<close> and is not kept.

  \<open>float\<close> of a string removes the same whitespace as \<open>int\<close>, reads an optional sign and
  then \<open>inf\<close>, \<open>infinity\<close> or \<open>nan\<close> in any letter case, or a decimal number: digits with an
  optional point (digits on at least one side of it) and an optional exponent \<open>e\<close> or \<open>E\<close>
  with its own sign. The decimal number denotes a rational, which is rounded to the
  nearest binary64 value, ties to the even significand, and to an infinity from
  \<open>2 ^ 1024\<close> on.
\<close>

datatype pyfloat = Finite rat | PInf | NInf | NaN

definition to_lower :: "char \<Rightarrow> char" where
  "to_lower c =
     (case map_of (zip ''ABCDEFGHIJKLMNOPQRSTUVWXYZ'' ''abcdefghijklmnopqrstuvwxyz'') c of
        None \<Rightarrow> c
      | Some l \<Rightarrow> l)"

definition pow2 :: "int \<Rightarrow> rat" where
  "pow2 k = (if 0 \<le> k then 2 ^ nat k else 1 / 2 ^ nat (- k))"

definition pow10 :: "int \<Rightarrow> rat" where
  "pow10 k = (if 0 \<le> k then 10 ^ nat k else 1 / 10 ^ nat (- k))"

fun nat_bits :: "nat \<Rightarrow> nat" where
  "nat_bits n = (if n = 0 then 0 else Suc (nat_bits (n div 2)))"

declare nat_bits.simps [simp del]

text \<open>
  For a positive rational \<open>x\<close>, \<open>floor_log2 x\<close> is the exponent \<open>e\<close> with
  \<open>pow2 e \<le> x < pow2 (e + 1)\<close>: the bit lengths of numerator and denominator give it up to
  one, and a comparison decides.
\<close>

definition floor_log2 :: "rat \<Rightarrow> int" where
  "floor_log2 x =
     (case quotient_of x of
        (p, q) \<Rightarrow>
          let k = int (nat_bits (nat p)) - int (nat_bits (nat q))
          in if pow2 k \<le> x then k else k - 1)"

definition round_half_even :: "rat \<Rightarrow> int" where
  "round_half_even x =
     (let n = \<lfloor>x\<rfloor>; r = x - of_int n
      in if r < 1 / 2 then n else if 1 / 2 < r then n + 1 else if even n then n else n + 1)"

definition round_double :: "rat \<Rightarrow> pyfloat" where
  "round_double x =
     (if x = 0 then Finite 0
      else
        let e = max (floor_log2 \<bar>x\<bar>) (- 1022);
            ulp = pow2 (e - 52);
            y = of_int (round_half_even (\<bar>x\<bar> / ulp)) * ulp
        in if pow2 1024 \<le> y then (if x < 0 then NInf else PInf)
           else Finite (if x < 0 then - y else y))"

definition parse_exponent :: "string \<Rightarrow> int option" where
  "parse_exponent s =
     (case split_sign s of
        (neg, body) \<Rightarrow>
          map_option (\<lambda>ds. if neg then - int (nat_of_digits ds) else int (nat_of_digits ds))
            (digitpart body))"

definition parse_mantissa :: "string \<Rightarrow> (string \<times> string) option" where
  "parse_mantissa m =
     (let ip = takeWhile (\<lambda>c. c \<noteq> CHR ''.'') m; rest = dropWhile (\<lambda>c. c \<noteq> CHR ''.'') m
      in if rest = [] then map_option (\<lambda>ds. (ds, [])) (digitpart ip)
         else
           let fp = tl rest
           in if ip = [] \<and> fp = [] then None
              else
                (case (if ip = [] then Some [] else digitpart ip,
                       if fp = [] then Some [] else digitpart fp) of
                   (Some ids, Some fds) \<Rightarrow> Some (ids, fds)
                 | _ \<Rightarrow> None))"

definition parse_decimal :: "string \<Rightarrow> rat option" where
  "parse_decimal body =
     (let is_e = (\<lambda>c. c = CHR ''e'' \<or> c = CHR ''E'');
          m = takeWhile (\<lambda>c. \<not> is_e c) body;
          rest = dropWhile (\<lambda>c. \<not> is_e c) body
      in case (parse_mantissa m, if rest = [] then Some 0 else parse_exponent (tl rest)) of
           (Some (ids, fds), Some ex) \<Rightarrow>
             Some (of_nat (nat_of_digits (ids @ fds)) * pow10 (ex - int (length fds)))
         | _ \<Rightarrow> None)"

definition py_float :: "string \<Rightarrow> py_error + pyfloat" where
  "py_float s =
     (case split_sign (num_strip s) of
        (neg, body) \<Rightarrow>
          let low = map to_lower body
          in if low = ''inf'' \<or> low = ''infinity'' then Inr (if neg then NInf else PInf)
             else if low = ''nan'' then Inr NaN
             else
               (case parse_decimal body of
                  None \<Rightarrow> Inl ValueError
                | Some x \<Rightarrow> Inr (round_double (if neg then - x else x))))"

text \<open>
  \<open>int\<close> of a float truncates a finite value toward zero, and raises \<open>OverflowError\<close> on
  an infinity and \<open>ValueError\<close> on a NaN.
\<close>

definition py_int_of_float :: "pyfloat \<Rightarrow> py_error + int" where
  "py_int_of_float f =
     (case f of
        Finite r \<Rightarrow> Inr (if 0 \<le> r then \<lfloor>r\<rfloor> else \<lceil>r\<rceil>)
      | PInf \<Rightarrow> Inl OverflowError
      | NInf \<Rightarrow> Inl OverflowError
      | NaN \<Rightarrow> Inl ValueError)"

subsection \<open>\<open>str\<close> of the values the program prints\<close>

fun digits_of_nat :: "nat \<Rightarrow> string" where
  "digits_of_nat n =
     (if n < 10 then [''0123456789'' ! n]
      else digits_of_nat (n div 10) @ [''0123456789'' ! (n mod 10)])"

declare digits_of_nat.simps [simp del]

definition py_str_int :: "int \<Rightarrow> string" where
  "py_str_int i = (if i < 0 then CHR ''-'' # digits_of_nat (nat (- i)) else digits_of_nat (nat i))"

text \<open>\<open>sep.join(xs)\<close> puts \<open>sep\<close> between consecutive elements.\<close>

fun join_with :: "string \<Rightarrow> string list \<Rightarrow> string" where
  "join_with sep [] = []"
| "join_with sep [x] = x"
| "join_with sep (x # y # ys) = x @ sep @ join_with sep (y # ys)"

section \<open>The field decoder: \<open>OrganizeT3Info\<close>\<close>

text \<open>
  A decoded value is an integer, a list of integers or a string, and the dictionary
  \<open>info\<close> is a map from keys to such values; storing under a key that is present
  overwrites it.
\<close>

datatype Value = VInt int | VList "int list" | VStr string

definition py_str :: "Value \<Rightarrow> string" where
  "py_str v =
     (case v of
        VInt i \<Rightarrow> py_str_int i
      | VList xs \<Rightarrow> ''['' @ join_with '', '' (map py_str_int xs) @ '']''
      | VStr s \<Rightarrow> s)"

text \<open>
  \<open>decode_value\<close> is the \<open>if\<close>/\<open>elif\<close>/\<open>else\<close> of lines 74 to 85, applied to the value
  already stripped at line 72. The slice \<open>value[1:-1]\<close> drops the first and the last
  character.
\<close>

definition decode_value :: "string \<Rightarrow> py_error + Value" where
  "decode_value val =
     (if prefix ''{'' val \<and> suffix ''}'' val then
        (let inner = py_strip (butlast (tl val));
             value_list = py_split CHR '' '' inner
         in case map_int value_list of Inl e \<Rightarrow> Inl e | Inr ns \<Rightarrow> Inr (VList ns))
      else if prefix [CHR 0x22] val \<and> suffix [CHR 0x22] val then Inr (VStr val)
      else
        (case py_float val of
           Inl e \<Rightarrow> Inl e
         | Inr f \<Rightarrow> (case py_int_of_float f of Inl e \<Rightarrow> Inl e | Inr n \<Rightarrow> Inr (VInt n))))"

text \<open>
  The loop of lines 69 to 87 over the tokens, with the dictionary built so far. The
  unpacking \<open>key, value = string.split("=", 1)\<close> needs exactly two pieces, which the test
  \<open>"=" in string\<close> guarantees.
\<close>

fun OrganizeT3Info_loop ::
  "string list \<Rightarrow> (string \<rightharpoonup> Value) \<Rightarrow> py_error + (string \<rightharpoonup> Value)" where
  "OrganizeT3Info_loop [] info = Inr info"
| "OrganizeT3Info_loop (str # rest) info =
     (if CHR ''='' \<in> set str then
        (case py_split_max1 CHR ''='' str of
           [key, val] \<Rightarrow>
             (case decode_value (py_strip val) of
                Inl e \<Rightarrow> Inl e
              | Inr v \<Rightarrow> OrganizeT3Info_loop rest (info(key \<mapsto> v)))
         | _ \<Rightarrow> Inl ValueError)
      else OrganizeT3Info_loop rest info)"

definition OrganizeT3Info :: "string list \<Rightarrow> py_error + (string \<rightharpoonup> Value)" where
  "OrganizeT3Info t3request = OrganizeT3Info_loop t3request Map.empty"

section \<open>The selector: \<open>GetLetyInfo\<close>\<close>

text \<open>
  \<open>data[key]\<close> raises \<open>KeyError\<close> on a missing key. \<open>x.index(n)\<close> gives the first position
  of \<open>n\<close> in a list and raises \<open>ValueError\<close> when there is none; a string has an \<open>index\<close>
  method that rejects an integer argument, and an integer has no such method. \<open>x[ind]\<close>
  reads a list or a string at a position that \<open>index\<close> returned, hence not negative, and
  raises \<open>IndexError\<close> beyond the end; an integer cannot be subscripted.
\<close>

definition py_lookup :: "(string \<rightharpoonup> Value) \<Rightarrow> string \<Rightarrow> py_error + Value" where
  "py_lookup data key = (case data key of None \<Rightarrow> Inl KeyError | Some v \<Rightarrow> Inr v)"

definition py_index :: "Value \<Rightarrow> int \<Rightarrow> py_error + nat" where
  "py_index x n =
     (case x of
        VList xs \<Rightarrow>
          if n \<in> set xs then Inr (length (takeWhile (\<lambda>y. y \<noteq> n) xs)) else Inl ValueError
      | VStr s \<Rightarrow> Inl TypeError
      | VInt i \<Rightarrow> Inl AttributeError)"

definition py_getitem :: "Value \<Rightarrow> nat \<Rightarrow> py_error + Value" where
  "py_getitem x ind =
     (case x of
        VList xs \<Rightarrow> if ind < length xs then Inr (VInt (xs ! ind)) else Inl IndexError
      | VStr s \<Rightarrow> if ind < length s then Inr (VStr [s ! ind]) else Inl IndexError
      | VInt i \<Rightarrow> Inl TypeError)"

text \<open>Lines 113 to 121, on the dictionary that line 111 produced.\<close>

definition GetLetyInfo_data :: "(string \<rightharpoonup> Value) \<Rightarrow> int \<Rightarrow> py_error + Value list" where
  "GetLetyInfo_data data LetyID =
     (case py_lookup data ''addresses'' of Inl e \<Rightarrow> Inl e | Inr addresses \<Rightarrow>
      case py_index addresses LetyID of Inl e \<Rightarrow> Inl e | Inr ind \<Rightarrow>
      case py_lookup data ''offsets'' of Inl e \<Rightarrow> Inl e | Inr offsets \<Rightarrow>
      case py_getitem offsets ind of Inl e \<Rightarrow> Inl e | Inr offset \<Rightarrow>
      case py_lookup data ''window'' of Inl e \<Rightarrow> Inl e | Inr window \<Rightarrow>
      case py_getitem window ind of Inl e \<Rightarrow> Inl e | Inr win \<Rightarrow>
      case py_lookup data ''refSecond'' of Inl e \<Rightarrow> Inl e | Inr gpsSec \<Rightarrow>
      case py_lookup data ''refuSecond'' of Inl e \<Rightarrow> Inl e | Inr gpsMicroSec \<Rightarrow>
        Inr [gpsSec, gpsMicroSec, offset, win])"

definition GetLetyInfo :: "string list \<Rightarrow> int \<Rightarrow> py_error + Value list" where
  "GetLetyInfo t3info LetyID =
     (case OrganizeT3Info t3info of
        Inl e \<Rightarrow> Inl e
      | Inr data \<Rightarrow> GetLetyInfo_data data LetyID)"

section \<open>The line loop of \<open>ParseIkLog\<close>\<close>

text \<open>
  The model covers the loop over the lines of the input file (lines 161 to 189). Its
  state is the text written to the output file so far, one list element per \<open>write\<close>,
  and the counter \<open>letyNum\<close>. The computation of the output file name and the opening and
  closing of the files are left out.
\<close>

record out_state =
  fileout :: "string list"
  letyNum :: nat

text \<open>
  Lines 176 to 189: the tokens of the sub-record, the search for the first token that
  starts with \<open>addresses=\<close>, the test of its text for \<open>str(LetyID)\<close>, and the call of
  \<open>GetLetyInfo\<close> whose four results are written as one line. A step returns the new
  state, which is the old one when the line is skipped, or the exception it raises.
\<close>

definition address_pieces :: "string \<Rightarrow> py_error + string list" where
  "address_pieces address_entry =
     (case py_split CHR ''='' address_entry of
        p0 # p1 # ps \<Rightarrow> Inr (py_split CHR '' '' (py_strip_chars ''{}'' p1))
      | _ \<Rightarrow> Inl IndexError)"

definition process_t3 :: "int \<Rightarrow> out_state \<Rightarrow> string \<Rightarrow> py_error + out_state" where
  "process_t3 LetyID st t3string =
     (let t3info = GetT3RequestInfo t3string (Some '' '');
          address_entry = (case find (prefix ''addresses='') t3info of None \<Rightarrow> [] | Some e \<Rightarrow> e)
      in if address_entry = [] then Inr st
         else
           (case address_pieces address_entry of
              Inl e \<Rightarrow> Inl e
            | Inr addresses \<Rightarrow>
                if py_str_int LetyID \<notin> set addresses then Inr st
                else
                  (case GetLetyInfo t3info LetyID of
                     Inl e \<Rightarrow> Inl e
                   | Inr letyT3 \<Rightarrow>
                       (case letyT3 of
                          [v0, v1, v2, v3] \<Rightarrow>
                            Inr (st\<lparr>letyNum := letyNum st + 1,
                                    fileout := fileout st @
                                      [py_str v0 @ '', '' @ py_str v1 @ '', '' @ py_str v2 @ '', ''
                                         @ py_str v3 @ [CHR 0x0A]]\<rparr>)
                        | _ \<Rightarrow> Inl IndexError))))"

text \<open>
  Lines 162 to 174: the shape filter on a line, then the step above on field 4. The
  locals \<open>trig\<close> and \<open>message\<close> (fields 1 and 3) are never used afterwards, and reading
  them cannot fail on six fields, so they are left out.
\<close>

definition process_line :: "int \<Rightarrow> out_state \<Rightarrow> string \<Rightarrow> py_error + out_state" where
  "process_line LetyID st line =
     (let cols = py_split CHR ''|'' (py_strip line)
      in if length cols \<noteq> 6 then Inr st
         else if ''IkT3'' \<notin> set cols then Inr st
         else process_t3 LetyID st (cols ! 4))"

text \<open>
  The loop stops at the first exception, which nothing in the program catches: the
  result is the state reached and the exception, if any.
\<close>

fun ParseIkLog_loop :: "int \<Rightarrow> string list \<Rightarrow> out_state \<Rightarrow> out_state \<times> py_error option" where
  "ParseIkLog_loop LetyID [] st = (st, None)"
| "ParseIkLog_loop LetyID (line # rest) st =
     (case process_line LetyID st line of
        Inl e \<Rightarrow> (st, Some e)
      | Inr st' \<Rightarrow> ParseIkLog_loop LetyID rest st')"

definition ParseIkLog_lines :: "string list \<Rightarrow> int \<Rightarrow> out_state \<times> py_error option" where
  "ParseIkLog_lines lines LetyID =
     ParseIkLog_loop LetyID lines
       \<lparr>fileout = [''#gpsSec, gpsMicroSec, offset, window'' @ [CHR 0x0A]], letyNum = 0\<rparr>"

section \<open>Properties of the tokenizer\<close>

lemma loop_append:
  "GetT3RequestInfo_loop (xs @ ys) d sep e ib =
     (case GetT3RequestInfo_loop xs d sep e ib of
        (sep', e', ib') \<Rightarrow> GetT3RequestInfo_loop ys d sep' e' ib')"
  by (induction xs arbitrary: sep e ib) simp_all

lemma depth_Suc:
  "n < length s \<Longrightarrow> depth s (Suc n) =
     depth s n + (if s ! n = CHR ''{'' then 1 else if s ! n = CHR ''}'' then -1 else 0)"
  by (simp add: depth_def take_Suc_conv_app_nth)

lemma take_drop_snoc:
  "a \<le> n \<Longrightarrow> n < length s \<Longrightarrow> take (Suc n - a) (drop a s) = take (n - a) (drop a s) @ [s ! n]"
  by (simp add: Suc_diff_le take_Suc_conv_app_nth)

lemma pieces_nonempty: "pieces a s ps \<noteq> []"
  by (cases ps) simp_all

lemma balanced_flatD:
  "balanced_flat s \<Longrightarrow> i \<le> length s \<Longrightarrow> depth s i = 0 \<or> depth s i = 1"
  by (auto simp: balanced_flat_def list_all_iff)

lemma balanced_flat_end: "balanced_flat s \<Longrightarrow> depth s (length s) = 0"
  by (simp add: balanced_flat_def)

lemma loop_pieces:
  assumes bal: "balanced_flat s"
  shows "n \<le> length s \<Longrightarrow> a \<le> n \<Longrightarrow>
    GetT3RequestInfo_loop (drop n s) (Some [d]) sep (take (n - a) (drop a s)) (0 < depth s n) =
      (sep @ butlast (pieces a s (filter (\<lambda>i. s ! i = d \<and> \<not> in_brace_span s i) [n..<length s])),
       last (pieces a s (filter (\<lambda>i. s ! i = d \<and> \<not> in_brace_span s i) [n..<length s])),
       False)"
proof (induction "length s - n" arbitrary: n a sep)
  case 0
  then have n: "n = length s" by simp
  with bal show ?case by (simp add: balanced_flat_end)
next
  case (Suc k)
  then have lt: "n < length s" and k: "k = length s - Suc n" by simp_all
  let ?P = "\<lambda>i. s ! i = d \<and> \<not> in_brace_span s i"
  have dn: "depth s n = 0 \<or> depth s n = 1" and dS: "depth s (Suc n) = 0 \<or> depth s (Suc n) = 1"
    using balanced_flatD[OF bal] lt by simp_all
  have drop: "drop n s = s ! n # drop (Suc n) s" using lt by (simp add: Cons_nth_drop_Suc)
  have upt: "[n..<length s] = n # [Suc n..<length s]" using lt by (simp add: upt_conv_Cons)
  have snoc: "take (n - a) (drop a s) @ [s ! n] = take (Suc n - a) (drop a s)"
    using take_drop_snoc[OF Suc.prems(2) lt] by simp
  have IH: "\<And>a' sep'. a' \<le> Suc n \<Longrightarrow>
    GetT3RequestInfo_loop (drop (Suc n) s) (Some [d]) sep' (take (Suc n - a') (drop a' s)) (0 < depth s (Suc n)) =
      (sep' @ butlast (pieces a' s (filter ?P [Suc n..<length s])),
       last (pieces a' s (filter ?P [Suc n..<length s])), False)"
    using Suc.hyps(1)[OF k] lt by simp
  let ?L = "\<lambda>n e sp b. GetT3RequestInfo_loop (drop n s) (Some [d]) sp e b"
  consider (op) "s ! n = CHR ''{''" | (cl) "s ! n = CHR ''}''"
    | (split) "s ! n \<noteq> CHR ''{''" "s ! n \<noteq> CHR ''}''" "s ! n = d" "depth s n = 0"
    | (keep) "s ! n \<noteq> CHR ''{''" "s ! n \<noteq> CHR ''}''" "s ! n \<noteq> d \<or> depth s n = 1"
    using dn by fastforce
  then show ?case
  proof cases
    case op
    then have "depth s (Suc n) = depth s n + 1" using depth_Suc[OF lt] by simp
    with dn dS have d1: "(0 < depth s (Suc n)) = True" by auto
    have "\<not> ?P n" using op by (simp add: in_brace_span_def)
    then have filt: "filter ?P [n..<length s] = filter ?P [Suc n..<length s]"
      by (simp add: upt)
    have "?L n (take (n - a) (drop a s)) sep (0 < depth s n)
        = ?L (Suc n) (take (n - a) (drop a s) @ [s ! n]) sep True"
      by (subst drop) (simp add: op)
    then show ?thesis
      unfolding snoc filt using IH[of a sep] Suc.prems(2) by (simp add: d1)
  next
    case cl
    then have "depth s (Suc n) = depth s n - 1" using depth_Suc[OF lt] by simp
    with dn dS have d1: "(0 < depth s (Suc n)) = False" and d0: "0 < depth s n" by auto
    have "\<not> ?P n" using d0 by (simp add: in_brace_span_def)
    then have filt: "filter ?P [n..<length s] = filter ?P [Suc n..<length s]"
      by (simp add: upt)
    have "?L n (take (n - a) (drop a s)) sep (0 < depth s n)
        = ?L (Suc n) (take (n - a) (drop a s) @ [s ! n]) sep False"
      by (subst drop) (simp add: cl)
    then show ?thesis
      unfolding snoc filt using IH[of a sep] Suc.prems(2) by (simp add: d1)
  next
    case split
    then have d1: "(0 < depth s (Suc n)) = False" using depth_Suc[OF lt] by simp
    have "?P n" using split by (simp add: in_brace_span_def)
    then have filt: "filter ?P [n..<length s] = n # filter ?P [Suc n..<length s]"
      by (simp add: upt)
    have "?L n (take (n - a) (drop a s)) sep (0 < depth s n)
        = ?L (Suc n) [] (sep @ [take (n - a) (drop a s)]) False"
      using split by (subst drop) auto
    then show ?thesis
      unfolding filt using IH[of "Suc n" "sep @ [take (n - a) (drop a s)]"]
      by (simp add: d1 pieces_nonempty)
  next
    case keep
    then have eq: "depth s (Suc n) = depth s n" using depth_Suc[OF lt] by simp
    have "\<not> ?P n" using keep by (auto simp: in_brace_span_def)
    then have filt: "filter ?P [n..<length s] = filter ?P [Suc n..<length s]"
      by (simp add: upt)
    have "?L n (take (n - a) (drop a s)) sep (0 < depth s n)
        = ?L (Suc n) (take (n - a) (drop a s) @ [s ! n]) sep (0 < depth s n)"
      using keep dn by (subst drop) auto
    then show ?thesis
      unfolding snoc filt using IH[of a sep] Suc.prems(2) by (simp add: eq)
  qed
qed

text \<open>
  Claim C2. For every string with balanced, non-nested braces and every one-character
  delimiter, the tokens are the pieces of the string cut at exactly the positions that
  hold the delimiter outside every brace-enclosed span: no occurrence outside braces is
  missed and no occurrence inside braces is a cut. Only the piece after a final cut is
  not listed when it is empty. In particular \<open>"a=1 b={2 3 4} c=5"\<close> with the space as
  delimiter gives \<open>["a=1", "b={2 3 4}", "c=5"]\<close>.
\<close>

theorem GetT3RequestInfo_splits_outside_braces:
  "(balanced_flat s \<longrightarrow> GetT3RequestInfo s (Some [d]) = spec_tokenize s d) \<and>
   GetT3RequestInfo ''a=1 b={2 3 4} c=5'' (Some '' '') = [''a=1'', ''b={2 3 4}'', ''c=5'']"
proof
  show "balanced_flat s \<longrightarrow> GetT3RequestInfo s (Some [d]) = spec_tokenize s d"
  proof
    assume bal: "balanced_flat s"
    show "GetT3RequestInfo s (Some [d]) = spec_tokenize s d"
      using loop_pieces[OF bal, of 0 0 d "[]"] pieces_nonempty[of 0 s "outside_delims s d"]
      by (simp add: GetT3RequestInfo_def spec_tokenize_def drop_final_empty_def
          outside_delims_def depth_def)
  qed
  show "GetT3RequestInfo ''a=1 b={2 3 4} c=5'' (Some '' '') = [''a=1'', ''b={2 3 4}'', ''c=5'']"
    by (simp add: GetT3RequestInfo_def)
qed

theorem GetT3RequestInfo_splits_outside_braces_witness:
  "balanced_flat ''k={1 2} m  n '' \<and>
   GetT3RequestInfo ''k={1 2} m  n '' (Some '' '') = spec_tokenize ''k={1 2} m  n '' CHR '' '' \<and>
   spec_tokenize ''k={1 2} m  n '' CHR '' '' = [''k={1 2}'', ''m'', [], ''n'']"
proof -
  have bal: "balanced_flat ''k={1 2} m  n ''"
    by code_simp
  have "GetT3RequestInfo ''k={1 2} m  n '' (Some '' '') = spec_tokenize ''k={1 2} m  n '' CHR '' ''"
    using GetT3RequestInfo_splits_outside_braces[of "''k={1 2} m  n ''" "CHR '' ''"] bal
    by blast
  moreover have "spec_tokenize ''k={1 2} m  n '' CHR '' '' = [''k={1 2}'', ''m'', [], ''n'']"
    by code_simp
  ultimately show ?thesis using bal by blast
qed

lemma loop_no_close:
  "CHR ''}'' \<notin> set post \<Longrightarrow>
   GetT3RequestInfo_loop post d sep e True = (sep, e @ post, True)"
  by (induction post arbitrary: e) auto

lemma loop_sep_prefix:
  "GetT3RequestInfo_loop ys d (sep @ sep0) e ib =
     (case GetT3RequestInfo_loop ys d sep0 e ib of (s', e', ib') \<Rightarrow> (sep @ s', e', ib'))"
  by (induction ys arbitrary: sep0 e ib) simp_all

text \<open>
  Claim C7. The tokenizer returns a token list for every string, so an unmatched opening
  brace raises nothing. When no closing brace follows an opening brace, the flag
  \<open>inside_brace\<close> is true at the end of the scan and everything from that brace to the end
  of the string, delimiters included, is in the last token; the tokens before it are
  those the scan had finished when it met the brace. When a closing brace does follow,
  the scan carries on behind it with the flag reset to false.
\<close>

theorem GetT3RequestInfo_unmatched_brace:
  assumes "CHR ''}'' \<notin> set post"
    and "GetT3RequestInfo_loop pre delimiter [] [] False = (sep, entry, ib)"
  shows "GetT3RequestInfo_loop (pre @ CHR ''{'' # post) delimiter [] [] False =
           (sep, entry @ CHR ''{'' # post, True) \<and>
         GetT3RequestInfo (pre @ CHR ''{'' # post) delimiter = sep @ [entry @ CHR ''{'' # post] \<and>
         GetT3RequestInfo_loop (pre @ CHR ''{'' # post @ CHR ''}'' # rest) delimiter [] [] False =
           GetT3RequestInfo_loop rest delimiter sep (entry @ CHR ''{'' # post @ ''}'') False"
proof -
  have 1: "GetT3RequestInfo_loop (pre @ CHR ''{'' # post) delimiter [] [] False =
           (sep, entry @ CHR ''{'' # post, True)"
    using assms by (simp add: loop_append loop_no_close)
  have 2: "GetT3RequestInfo_loop (pre @ CHR ''{'' # post @ CHR ''}'' # rest) delimiter [] [] False =
           GetT3RequestInfo_loop rest delimiter sep (entry @ CHR ''{'' # post @ ''}'') False"
    using assms by (simp add: loop_append loop_no_close)
  from 1 2 show ?thesis by (simp add: GetT3RequestInfo_def)
qed

theorem GetT3RequestInfo_unmatched_brace_witness:
  "CHR ''}'' \<notin> set ''1 2 c=3'' \<and>
   GetT3RequestInfo_loop ''a=1 b='' (Some '' '') [] [] False = ([''a=1''], ''b='', False) \<and>
   GetT3RequestInfo ''a=1 b={1 2 c=3'' (Some '' '') = [''a=1'', ''b={1 2 c=3''] \<and>
   GetT3RequestInfo_loop ''a=1 b={1 2 c=3} d=4'' (Some '' '') [] [] False =
     ([''a=1'', ''b={1 2 c=3}''], ''d=4'', False)"
proof -
  have a: "CHR ''}'' \<notin> set ''1 2 c=3''" by simp
  have b: "GetT3RequestInfo_loop ''a=1 b='' (Some '' '') [] [] False = ([''a=1''], ''b='', False)"
    by simp
  from GetT3RequestInfo_unmatched_brace[OF a b, of "'' d=4''"] a b show ?thesis by simp
qed

lemma loop_brace_delimiter:
  "d = CHR ''{'' \<or> d = CHR ''}'' \<Longrightarrow>
   fst (GetT3RequestInfo_loop s (Some [d]) sep e ib) = sep \<and>
   fst (snd (GetT3RequestInfo_loop s (Some [d]) sep e ib)) = e @ s"
  by (induction s arbitrary: e ib) auto

text \<open>
  Claim C6, as the code has it. Let the delimiter be a character other than a brace, and
  let the scan of \<open>pre\<close> end outside braces with finished tokens \<open>sep\<close> and buffer
  \<open>entry\<close>. A delimiter met there closes the buffer as a token, empty or not, and the
  tokens of what follows come after it. So two delimiters in a row after \<open>pre\<close> give the
  token \<open>entry\<close>, then an empty token, then the tokens of what follows; and a delimiter
  at the very end of the string gives the token
  \<open>entry\<close>, which is empty when \<open>pre\<close> is empty or itself ends at a delimiter, and no
  token for the empty text after it. When the delimiter is a brace, the brace branches
  of the scan come first and the string is never split.

  The claim speaks of every delimiter and says that no trailing empty token is emitted
  when the string ends at a delimiter. The counterexample below has the string \<open>"a}}b"\<close>
  with the delimiter \<open>}\<close>, where two delimiters in a row give no empty token, and the
  strings \<open>"a  "\<close> and \<open>" "\<close> with the space as delimiter, which end at a delimiter and
  whose last token is empty.
\<close>

theorem GetT3RequestInfo_empty_tokens:
  "(d \<noteq> CHR ''{'' \<and> d \<noteq> CHR ''}'' \<and>
    GetT3RequestInfo_loop pre (Some [d]) [] [] False = (sep, entry, False) \<longrightarrow>
      GetT3RequestInfo (pre @ d # post) (Some [d]) =
        sep @ [entry] @ GetT3RequestInfo post (Some [d]) \<and>
      GetT3RequestInfo (pre @ [d, d] @ post) (Some [d]) =
        sep @ [entry, []] @ GetT3RequestInfo post (Some [d]) \<and>
      GetT3RequestInfo (pre @ [d]) (Some [d]) = sep @ [entry]) \<and>
   (d = CHR ''{'' \<or> d = CHR ''}'' \<longrightarrow>
      GetT3RequestInfo s (Some [d]) = (if s = [] then [] else [s]))"
proof (intro conjI impI)
  assume a: "d \<noteq> CHR ''{'' \<and> d \<noteq> CHR ''}'' \<and>
    GetT3RequestInfo_loop pre (Some [d]) [] [] False = (sep, entry, False)"
  have "GetT3RequestInfo_loop (pre @ d # post) (Some [d]) [] [] False =
          GetT3RequestInfo_loop post (Some [d]) ((sep @ [entry]) @ []) [] False"
    using a by (simp add: loop_append)
  then show "GetT3RequestInfo (pre @ d # post) (Some [d]) =
           sep @ [entry] @ GetT3RequestInfo post (Some [d])"
    unfolding GetT3RequestInfo_def loop_sep_prefix by (simp split: prod.splits)
  have "GetT3RequestInfo_loop (pre @ [d, d] @ post) (Some [d]) [] [] False =
          GetT3RequestInfo_loop post (Some [d]) ((sep @ [entry, []]) @ []) [] False"
    using a by (simp add: loop_append)
  then show "GetT3RequestInfo (pre @ [d, d] @ post) (Some [d]) =
           sep @ [entry, []] @ GetT3RequestInfo post (Some [d])"
    unfolding GetT3RequestInfo_def loop_sep_prefix by (simp split: prod.splits)
  show "GetT3RequestInfo (pre @ [d]) (Some [d]) = sep @ [entry]"
    using a by (simp add: GetT3RequestInfo_def loop_append)
next
  assume b: "d = CHR ''{'' \<or> d = CHR ''}''"
  show "GetT3RequestInfo s (Some [d]) = (if s = [] then [] else [s])"
    using loop_brace_delimiter[OF b, of s "[]" "[]" False]
    by (auto simp: GetT3RequestInfo_def split: prod.splits)
qed

theorem GetT3RequestInfo_empty_tokens_witness:
  "GetT3RequestInfo_loop ''a={1 2}'' (Some '' '') [] [] False = ([], ''a={1 2}'', False) \<and>
   GetT3RequestInfo ''a={1 2}  b'' (Some '' '') = [''a={1 2}'', [], ''b''] \<and>
   GetT3RequestInfo ''a={1 2} '' (Some '' '') = [''a={1 2}''] \<and>
   GetT3RequestInfo_loop ''a '' (Some '' '') [] [] False = ([''a''], [], False) \<and>
   GetT3RequestInfo ''a  '' (Some '' '') = [''a'', []] \<and>
   GetT3RequestInfo ''a}}b'' (Some ''}'') = [''a}}b'']"
proof -
  have a: "GetT3RequestInfo_loop ''a={1 2}'' (Some '' '') [] [] False = ([], ''a={1 2}'', False)"
    by simp
  have a2: "GetT3RequestInfo_loop ''a '' (Some '' '') [] [] False = ([''a''], [], False)"
    by simp
  have b: "CHR '' '' \<noteq> CHR ''{'' \<and> CHR '' '' \<noteq> CHR ''}''" by simp
  have c: "GetT3RequestInfo ''b'' (Some '' '') = [''b'']" by (simp add: GetT3RequestInfo_def)
  have 1: "GetT3RequestInfo (''a={1 2}'' @ [CHR '' '', CHR '' ''] @ ''b'') (Some '' '') =
        [] @ [''a={1 2}'', []] @ GetT3RequestInfo ''b'' (Some '' '') \<and>
      GetT3RequestInfo (''a={1 2}'' @ [CHR '' '']) (Some '' '') = [] @ [''a={1 2}'']"
    using GetT3RequestInfo_empty_tokens[of "CHR '' ''" "''a={1 2}''" "[]" "''a={1 2}''" "''b''" "[]"]
      a b by blast
  have 2: "GetT3RequestInfo (''a '' @ [CHR '' '']) (Some '' '') = [''a''] @ [[]]"
    using GetT3RequestInfo_empty_tokens[of "CHR '' ''" "''a ''" "[''a'']" "[]" "[]" "[]"]
      a2 b by blast
  have 3: "GetT3RequestInfo ''a}}b'' (Some [CHR ''}'']) = (if ''a}}b'' = [] then [] else [''a}}b''])"
    using GetT3RequestInfo_empty_tokens[of "CHR ''}''" "[]" "[]" "[]" "[]" "''a}}b''"]
    by blast
  from 1 2 3 a a2 c show ?thesis by simp
qed

theorem GetT3RequestInfo_empty_tokens_counterexample:
  "GetT3RequestInfo ''a}}b'' (Some ''}'') = [''a}}b''] \<and>
   GetT3RequestInfo ''a  '' (Some '' '') = [''a'', []] \<and>
   GetT3RequestInfo '' '' (Some '' '') = [[]]"
  by (simp add: GetT3RequestInfo_def)

section \<open>Facts about the built-ins\<close>

subsection \<open>Stripping, splitting and joining\<close>

lemma dropWhile_none: "\<forall>c\<in>set xs. \<not> P c \<Longrightarrow> dropWhile P xs = xs"
  by (cases xs) auto

lemma py_strip_all_space: "list_all py_isspace ws \<Longrightarrow> py_strip ws = []"
  by (simp add: py_strip_def list_all_iff dropWhile_eq_Nil_conv[THEN iffD2])

lemma py_strip_plain:
  "s \<noteq> [] \<Longrightarrow> \<not> py_isspace (hd s) \<Longrightarrow> \<not> py_isspace (last s) \<Longrightarrow> py_strip s = s"
proof -
  assume s: "s \<noteq> []" and h: "\<not> py_isspace (hd s)" and l: "\<not> py_isspace (last s)"
  have drop: "\<And>xs. xs \<noteq> [] \<Longrightarrow> \<not> py_isspace (hd xs) \<Longrightarrow> dropWhile py_isspace xs = xs"
    by (case_tac xs) auto
  have "dropWhile py_isspace s = s" using s h by (rule drop)
  moreover have "dropWhile py_isspace (rev s) = rev s"
    using s l by (intro drop) (simp_all add: hd_rev)
  ultimately show ?thesis by (simp add: py_strip_def)
qed

lemma py_strip_braces: "py_strip (CHR ''{'' # xs @ ''}'') = CHR ''{'' # xs @ ''}''"
  by (rule py_strip_plain) (simp_all add: py_isspace_def)

lemma py_strip_chars_braces:
  assumes "\<forall>c\<in>set body. c \<noteq> CHR ''{'' \<and> c \<noteq> CHR ''}''"
  shows "py_strip_chars ''{}'' (CHR ''{'' # body @ ''}'') = body"
proof -
  let ?P = "\<lambda>c. c \<in> set ''{}''"
  have np: "\<forall>c\<in>set body. \<not> ?P c" using assms by auto
  have 1: "dropWhile ?P (CHR ''{'' # body @ ''}'') = dropWhile ?P (body @ ''}'')" by simp
  show ?thesis
  proof (cases "body = []")
    case True
    then show ?thesis by (simp add: py_strip_chars_def)
  next
    case False
    then have "dropWhile ?P (body @ ''}'') = body @ ''}''"
      using np by (cases body) auto
    moreover have "dropWhile ?P (rev body) = rev body"
      using np by (intro dropWhile_none) simp
    ultimately show ?thesis unfolding py_strip_chars_def 1 by simp
  qed
qed

lemma py_split_max1_first:
  "CHR ''='' \<notin> set k \<Longrightarrow> py_split_max1 CHR ''='' (k @ CHR ''='' # v) = [k, v]"
proof -
  assume k: "CHR ''='' \<notin> set k"
  have "takeWhile (\<lambda>c. c \<noteq> CHR ''='') (k @ CHR ''='' # v) = k"
    using k by (induction k) auto
  moreover have "dropWhile (\<lambda>c. c \<noteq> CHR ''='') (k @ CHR ''='' # v) = CHR ''='' # v"
    using k by (induction k) auto
  ultimately show ?thesis by (simp add: py_split_max1_def)
qed

lemma py_split_no_sep: "sep \<notin> set x \<Longrightarrow> py_split sep x = [x]"
  by (induction x) auto

lemma py_split_append:
  "sep \<notin> set x \<Longrightarrow> py_split sep (x @ sep # rest) = x # py_split sep rest"
  by (induction x) auto

lemma py_split_join:
  "xs \<noteq> [] \<Longrightarrow> \<forall>x\<in>set xs. sep \<notin> set x \<Longrightarrow> py_split sep (join_with [sep] xs) = xs"
proof (induction "[sep]" xs rule: join_with.induct)
  case 1
  then show ?case by simp
next
  case (2 x)
  then show ?case by (simp add: py_split_no_sep)
next
  case (3 x y ys)
  then show ?case by (simp add: py_split_append)
qed

lemma join_with_chars:
  "c \<in> set (join_with sep xs) \<Longrightarrow> c \<in> set sep \<or> (\<exists>x\<in>set xs. c \<in> set x)"
  by (induction sep xs rule: join_with.induct) auto

subsection \<open>Integers and their decimal form\<close>

lemma py_int_empty: "py_int [] = Inl ValueError"
  by (simp add: py_int_def num_strip_def split_sign_def)

lemma digit_char_val: "n < 10 \<Longrightarrow> digit_val (''0123456789'' ! n) = n"
proof -
  assume "n < 10"
  then have "n \<in> {0, 1, 2, 3, 4, 5, 6, 7, 8, 9}" by auto
  then show ?thesis by (auto simp: digit_val_def)
qed

lemma digit_char_in: "n < 10 \<Longrightarrow> is_digit (''0123456789'' ! n)"
  unfolding is_digit_def by (rule nth_mem) simp

lemma digits_of_nat_chars: "c \<in> set (digits_of_nat n) \<Longrightarrow> is_digit c"
proof (induction n rule: digits_of_nat.induct)
  case (1 n)
  show ?case
  proof (cases "n < 10")
    case True
    with 1(2) have "c = ''0123456789'' ! n"
      by (subst (asm) digits_of_nat.simps) simp
    with True show ?thesis by (simp only: digit_char_in)
  next
    case False
    with 1(2) have "c \<in> set (digits_of_nat (n div 10)) \<or> c = ''0123456789'' ! (n mod 10)"
      by (subst (asm) digits_of_nat.simps) auto
    then show ?thesis
      using 1(1)[OF False] digit_char_in[of "n mod 10"] by auto
  qed
qed

lemma digits_of_nat_nonempty: "digits_of_nat n \<noteq> []"
  by (subst digits_of_nat.simps) simp

lemma nat_of_digits_snoc: "nat_of_digits (ds @ [c]) = 10 * nat_of_digits ds + digit_val c"
  by (simp add: nat_of_digits_def)

lemma nat_of_digits_of_nat: "nat_of_digits (digits_of_nat n) = n"
proof (induction n rule: digits_of_nat.induct)
  case (1 n)
  show ?case
  proof (cases "n < 10")
    case True
    then have "digits_of_nat n = [''0123456789'' ! n]"
      by (subst digits_of_nat.simps) simp
    with True show ?thesis
      using digit_char_val[of n] by (simp add: nat_of_digits_def)
  next
    case False
    then have "digits_of_nat n = digits_of_nat (n div 10) @ [''0123456789'' ! (n mod 10)]"
      by (subst digits_of_nat.simps) simp
    then show ?thesis
      using 1[OF False] digit_char_val[of "n mod 10"] by (simp add: nat_of_digits_snoc)
  qed
qed

lemma digits_of_nat_inj: "digits_of_nat m = digits_of_nat n \<Longrightarrow> m = n"
proof -
  assume "digits_of_nat m = digits_of_nat n"
  then have "nat_of_digits (digits_of_nat m) = nat_of_digits (digits_of_nat n)" by simp
  then show ?thesis by (simp only: nat_of_digits_of_nat)
qed

lemma minus_not_digit: "\<not> is_digit CHR ''-''"
  by (simp add: is_digit_def)

lemma space_not_digit: "\<not> is_digit CHR '' ''" "\<not> is_digit CHR ''=''"
  "\<not> is_digit CHR ''{''" "\<not> is_digit CHR ''}''"
  by (simp_all add: is_digit_def)

lemma digits_of_nat_no_minus: "digits_of_nat n \<noteq> CHR ''-'' # ds"
proof
  assume eq: "digits_of_nat n = CHR ''-'' # ds"
  have "CHR ''-'' \<in> set (digits_of_nat n)" unfolding eq by simp
  then show False using digits_of_nat_chars minus_not_digit by blast
qed

lemma py_str_int_chars: "c \<in> set (py_str_int i) \<Longrightarrow> c = CHR ''-'' \<or> is_digit c"
  by (cases "i < 0") (auto simp: py_str_int_def dest: digits_of_nat_chars)

lemma py_str_int_nonempty: "py_str_int i \<noteq> []"
  by (simp add: py_str_int_def digits_of_nat_nonempty)

lemma py_str_int_inj: "py_str_int a = py_str_int b \<Longrightarrow> a = b"
proof -
  assume eq: "py_str_int a = py_str_int b"
  show "a = b"
  proof (cases "a < 0"; cases "b < 0")
    assume ab: "a < 0" "b < 0"
    with eq have "digits_of_nat (nat (- a)) = digits_of_nat (nat (- b))"
      by (simp add: py_str_int_def)
    then have "nat (- a) = nat (- b)" by (rule digits_of_nat_inj)
    with ab show ?thesis by simp
  next
    assume ab: "a < 0" "\<not> b < 0"
    with eq have "digits_of_nat (nat b) = CHR ''-'' # digits_of_nat (nat (- a))"
      by (simp add: py_str_int_def)
    then show ?thesis using digits_of_nat_no_minus by blast
  next
    assume ab: "\<not> a < 0" "b < 0"
    with eq have "digits_of_nat (nat a) = CHR ''-'' # digits_of_nat (nat (- b))"
      by (simp add: py_str_int_def)
    then show ?thesis using digits_of_nat_no_minus by blast
  next
    assume ab: "\<not> a < 0" "\<not> b < 0"
    with eq have "digits_of_nat (nat a) = digits_of_nat (nat b)"
      by (simp add: py_str_int_def)
    then have "nat a = nat b" by (rule digits_of_nat_inj)
    with ab show ?thesis by simp
  qed
qed

subsection \<open>Floats\<close>

text \<open>
  Two checks of the rounding: \<open>floor_log2\<close> is the binary exponent of a positive rational,
  and \<open>round_half_even\<close> is at most one half away from its argument. So \<open>round_double x\<close>
  is a multiple of the unit in the last place of \<open>x\<close> that lies nearest to \<open>x\<close>.
\<close>

lemma nat_bits_bounds:
  "0 < n \<Longrightarrow> 0 < nat_bits n \<and> (2::nat) ^ (nat_bits n - 1) \<le> n \<and> n < 2 ^ nat_bits n"
proof (induction n rule: nat_bits.induct)
  case (1 n)
  have nb: "nat_bits n = Suc (nat_bits (n div 2))"
    using 1(2) by (subst nat_bits.simps) simp
  show ?case
  proof (cases "n div 2 = 0")
    case True
    with 1(2) have "n = 1" by (simp add: div_eq_0_iff)
    then show ?thesis by (simp add: nat_bits.simps)
  next
    case False
    then have pos: "0 < n div 2" by simp
    from 1(1)[OF _ pos] 1(2)
    have ih: "0 < nat_bits (n div 2)" "(2::nat) ^ (nat_bits (n div 2) - 1) \<le> n div 2"
      "n div 2 < 2 ^ nat_bits (n div 2)"
      by simp_all
    have "(2::nat) ^ nat_bits (n div 2) = 2 * 2 ^ (nat_bits (n div 2) - 1)"
      using ih(1) by (cases "nat_bits (n div 2)") simp_all
    with ih show ?thesis unfolding nb by simp linarith
  qed
qed

lemma pow2_powi: "pow2 k = 2 powi k"
  by (simp add: pow2_def power_int_def field_simps)

lemma floor_log2_correct:
  assumes "0 < x"
  shows "pow2 (floor_log2 x) \<le> x \<and> x < pow2 (floor_log2 x + 1)"
proof -
  obtain p q where pq: "quotient_of x = (p, q)" by (cases "quotient_of x")
  then have q: "0 < q" and x: "x = of_int p / of_int q"
    by (simp_all add: quotient_of_denom_pos quotient_of_div)
  with assms have p: "0 < p" by (simp add: zero_less_divide_iff)
  define bp bq where "bp = nat_bits (nat p)" and "bq = nat_bits (nat q)"
  have P: "0 < bp" "(2::nat) ^ (bp - 1) \<le> nat p" "nat p < 2 ^ bp"
    using nat_bits_bounds[of "nat p"] p by (simp_all add: bp_def)
  have Q: "0 < bq" "(2::nat) ^ (bq - 1) \<le> nat q" "nat q < 2 ^ bq"
    using nat_bits_bounds[of "nat q"] q by (simp_all add: bq_def)
  have cast: "\<And>m b. 0 < m \<Longrightarrow> (2::nat) ^ (b - 1) \<le> nat m \<Longrightarrow> nat m < 2 ^ b \<Longrightarrow>
      (2::rat) ^ (b - 1) \<le> of_int m \<and> (of_int m :: rat) < 2 ^ b"
  proof -
    fix m :: int and b :: nat
    assume m: "0 < m" and lo: "(2::nat) ^ (b - 1) \<le> nat m" and hi: "nat m < 2 ^ b"
    have "(of_nat (2 ^ (b - 1)) :: rat) \<le> of_nat (nat m)"
      using lo by (simp only: of_nat_le_iff)
    moreover have "(of_nat (nat m) :: rat) < of_nat (2 ^ b)"
      using hi by (simp only: of_nat_less_iff)
    moreover have "(of_nat (nat m) :: rat) = of_int m"
      using m by simp
    ultimately show "(2::rat) ^ (b - 1) \<le> of_int m \<and> (of_int m :: rat) < 2 ^ b"
      by simp
  qed
  have Pr: "(2::rat) ^ (bp - 1) \<le> of_int p" "(of_int p :: rat) < 2 ^ bp"
    using cast[OF p P(2,3)] by simp_all
  have Qr: "(2::rat) ^ (bq - 1) \<le> of_int q" "(of_int q :: rat) < 2 ^ bq"
    using cast[OF q Q(2,3)] by simp_all
  define k where "k = int bp - int bq"
  have up: "x < pow2 (k + 1)"
  proof -
    have "x < 2 ^ bp / 2 ^ (bq - 1)"
      unfolding x using Pr(2) Qr(1) p by (intro frac_less) simp_all
    also have "\<dots> = 2 powi (int bp - int (bq - 1))"
      by (simp add: power_int_diff)
    also have "int bp - int (bq - 1) = k + 1"
      using Q(1) by (simp add: k_def)
    finally show ?thesis by (simp add: pow2_powi)
  qed
  have lo: "pow2 (k - 1) \<le> x"
  proof -
    have "(2::rat) ^ (bp - 1) / 2 ^ bq \<le> x"
      unfolding x using Pr(1) Qr(2) p q by (intro frac_le) simp_all
    moreover have "(2::rat) ^ (bp - 1) / 2 ^ bq = 2 powi (int (bp - 1) - int bq)"
      by (simp add: power_int_diff)
    moreover have "int (bp - 1) - int bq = k - 1"
      using P(1) by (simp add: k_def)
    ultimately show ?thesis by (simp add: pow2_powi)
  qed
  have fl: "floor_log2 x = (if pow2 k \<le> x then k else k - 1)"
    by (simp add: floor_log2_def pq k_def bp_def bq_def Let_def)
  show ?thesis
  proof (cases "pow2 k \<le> x")
    case True
    with up fl show ?thesis by simp
  next
    case False
    with lo fl show ?thesis by simp
  qed
qed


lemma round_half_even_nearest: "\<bar>of_int (round_half_even x) - x\<bar> \<le> 1 / 2"
proof -
  define n where "n = \<lfloor>x\<rfloor>"
  define r where "r = x - of_int n"
  have r: "0 \<le> r" "r < 1"
    unfolding r_def n_def by linarith+
  have x: "x = of_int n + r" by (simp add: r_def)
  have "round_half_even x =
      (if r < 1 / 2 then n else if 1 / 2 < r then n + 1 else if even n then n else n + 1)"
    by (simp add: round_half_even_def Let_def n_def r_def)
  then show ?thesis
    using r unfolding x by (auto simp: abs_if)
qed

lemma floor_div_numeral_rat: "\<lfloor>numeral a / numeral b :: rat\<rfloor> = numeral a div numeral b"
  by (metis floor_divide_of_int_eq of_int_numeral)

lemma py_float_2_3e_8:
  "py_float ''2.3e-8'' = Inr (Finite (3475661731392059 / 151115727451828646838272))"
proof -
  have q: "quotient_of (23 / 1000000000) = (23, 1000000000)"
    by code_simp
  have nb: "nat_bits 23 = 5" "nat_bits 1000000000 = 30"
    by (simp_all add: nat_bits.simps)
  have fl: "floor_log2 (23 / 1000000000) = - 26"
    by (simp add: floor_log2_def q nb pow2_def)
  have rd: "round_double (23 / 1000000000) =
      Finite (3475661731392059 / 151115727451828646838272)"
    by (simp add: round_double_def fl pow2_def round_half_even_def Let_def floor_div_numeral_rat)
  have pd: "parse_decimal ''2.3e-8'' = Some (23 / 1000000000)"
    by code_simp
  show ?thesis
    by (simp add: py_float_def num_strip_def num_space_def split_sign_def to_lower_def pd rd)
qed

lemma py_float_5: "py_float ''5'' = Inr (Finite 5)"
proof -
  have nb: "nat_bits 5 = 3" "nat_bits (Suc 0) = 1"
    by (simp_all add: nat_bits.simps)
  have fl: "floor_log2 5 = 2"
    by (simp add: floor_log2_def nb pow2_def)
  have rd: "round_double 5 = Finite 5"
    by (simp add: round_double_def fl pow2_def round_half_even_def Let_def)
  have pd: "parse_decimal ''5'' = Some 5"
    by code_simp
  show ?thesis
    by (simp add: py_float_def num_strip_def num_space_def split_sign_def to_lower_def pd rd)
qed

lemma py_float_m1_5: "py_float ''-1.5'' = Inr (Finite (- 3 / 2))"
proof -
  have q: "quotient_of (3 / 2) = (3, 2)"
    by code_simp
  have nb: "nat_bits 3 = 2" "nat_bits 2 = 2"
    by (simp_all add: nat_bits.simps)
  have fl: "floor_log2 (3 / 2) = 0"
    by (simp add: floor_log2_def q nb pow2_def)
  have rd: "round_double (- (3 / 2)) = Finite (- 3 / 2)"
    by (simp add: round_double_def fl pow2_def round_half_even_def Let_def)
  have pd: "parse_decimal ''1.5'' = Some (3 / 2)"
    by code_simp
  show ?thesis
    by (simp add: py_float_def num_strip_def num_space_def split_sign_def to_lower_def pd rd)
qed

lemma py_float_555: "py_float ''555'' = Inr (Finite 555)"
proof -
  have nb: "nat_bits 555 = 10" "nat_bits (Suc 0) = 1"
    by (simp_all add: nat_bits.simps)
  have fl: "floor_log2 555 = 9"
    by (simp add: floor_log2_def nb pow2_def)
  have rd: "round_double 555 = Finite 555"
    by (simp add: round_double_def fl pow2_def round_half_even_def Let_def)
  have pd: "parse_decimal ''555'' = Some 555"
    by code_simp
  show ?thesis
    by (simp add: py_float_def num_strip_def num_space_def split_sign_def to_lower_def pd rd)
qed

lemma py_float_10: "py_float ''10'' = Inr (Finite 10)"
proof -
  have nb: "nat_bits 10 = 4" "nat_bits (Suc 0) = 1"
    by (simp_all add: nat_bits.simps)
  have fl: "floor_log2 10 = 3"
    by (simp add: floor_log2_def nb pow2_def)
  have rd: "round_double 10 = Finite 10"
    by (simp add: round_double_def fl pow2_def round_half_even_def Let_def)
  have pd: "parse_decimal ''10'' = Some 10"
    by code_simp
  show ?thesis
    by (simp add: py_float_def num_strip_def num_space_def split_sign_def to_lower_def pd rd)
qed

lemma py_float_nan: "py_float ''nan'' = Inr NaN"
  by (simp add: py_float_def num_strip_def num_space_def split_sign_def to_lower_def)

lemma truncation_toward_zero:
  fixes r :: rat
  defines "n \<equiv> (if 0 \<le> r then \<lfloor>r\<rfloor> else \<lceil>r\<rceil>)"
  shows "\<bar>of_int n\<bar> \<le> \<bar>r\<bar> \<and> \<bar>r - of_int n\<bar> < 1"
proof (cases "0 \<le> r")
  case True
  then have "0 \<le> \<lfloor>r\<rfloor>" by simp
  with True show ?thesis unfolding n_def by simp linarith
next
  case False
  then have "\<lceil>r\<rceil> \<le> 0" by (simp add: ceiling_le_iff)
  with False show ?thesis unfolding n_def by simp linarith
qed

section \<open>Properties of the decoder\<close>

lemma OrganizeT3Info_loop_token:
  "CHR ''='' \<notin> set k \<Longrightarrow>
   OrganizeT3Info_loop ((k @ CHR ''='' # v) # rest) info =
     (case decode_value (py_strip v) of
        Inl e \<Rightarrow> Inl e
      | Inr x \<Rightarrow> OrganizeT3Info_loop rest (info(k \<mapsto> x)))"
  by (simp add: py_split_max1_first)

lemma decode_value_empty_braces:
  "list_all py_isspace ws \<Longrightarrow> decode_value (CHR ''{'' # ws @ ''}'') = Inl ValueError"
proof -
  assume ws: "list_all py_isspace ws"
  have "suffix ''}'' (CHR ''{'' # ws @ ''}'')"
    by (simp add: suffix_def)
  moreover have "butlast (ws @ ''}'') = ws"
    by (simp add: butlast_append)
  ultimately show ?thesis
    using ws by (simp add: decode_value_def py_strip_all_space py_int_empty)
qed

text \<open>
  Claim C9. When the stripped value of a token is a pair of braces with nothing or only
  whitespace between them, no empty list is stored: the inner text strips to the empty
  string, splitting it on the space gives the single piece \<open>""\<close>, \<open>int("")\<close> raises
  \<open>ValueError\<close>, and so decoding stops with that exception whatever tokens follow.
\<close>

theorem OrganizeT3Info_empty_braces:
  assumes "CHR ''='' \<notin> set k" and "py_strip v = CHR ''{'' # ws @ ''}''"
    and "list_all py_isspace ws"
  shows "py_split CHR '' '' (py_strip ws) = [[]] \<and> py_int [] = Inl ValueError \<and>
         OrganizeT3Info_loop ((k @ CHR ''='' # v) # rest) info = Inl ValueError"
  using assms
  by (simp add: OrganizeT3Info_loop_token decode_value_empty_braces py_strip_all_space
      py_int_empty del: OrganizeT3Info_loop.simps)

theorem OrganizeT3Info_empty_braces_witness:
  "CHR ''='' \<notin> set ''offsets'' \<and> py_strip '' {  } '' = CHR ''{'' # ''  '' @ ''}'' \<and>
   list_all py_isspace ''  '' \<and>
   OrganizeT3Info_loop [''offsets= {  } '', ''a=1''] Map.empty = Inl ValueError \<and>
   OrganizeT3Info [''offsets={}''] = Inl ValueError"
proof -
  have a: "CHR ''='' \<notin> set ''offsets''" by simp
  have b: "py_strip '' {  } '' = CHR ''{'' # ''  '' @ ''}''"
    by (simp add: py_strip_def py_isspace_def)
  have c: "list_all py_isspace ''  ''" by (simp add: py_isspace_def)
  have b': "py_strip ''{}'' = CHR ''{'' # [] @ ''}''"
    by (simp add: py_strip_def py_isspace_def)
  have c': "list_all py_isspace []" by simp
  from OrganizeT3Info_empty_braces[OF a b c, of "[''a=1'']" Map.empty]
    OrganizeT3Info_empty_braces[OF a b' c', of "[]" Map.empty] a b c
  show ?thesis by (simp add: OrganizeT3Info_def del: OrganizeT3Info_loop.simps)
qed

lemma decode_value_number:
  assumes "\<not> (prefix ''{'' val \<and> suffix ''}'' val)"
    and "\<not> (prefix [CHR 0x22] val \<and> suffix [CHR 0x22] val)"
  shows "decode_value val =
     (case py_float val of
        Inl e \<Rightarrow> Inl e
      | Inr (Finite r) \<Rightarrow> Inr (VInt (if 0 \<le> r then \<lfloor>r\<rfloor> else \<lceil>r\<rceil>))
      | Inr PInf \<Rightarrow> Inl OverflowError
      | Inr NInf \<Rightarrow> Inl OverflowError
      | Inr NaN \<Rightarrow> Inl ValueError)"
  using assms
  by (auto simp: decode_value_def py_int_of_float_def split: sum.splits pyfloat.splits)

text \<open>
  Claim C5, as the code has it. Let the stripped value of a token be neither enclosed in
  braces nor in double quotes. The decoder parses it as a binary64 float. A finite float
  is truncated toward zero (the stored integer lies between zero and the float, less
  than one away from it) and stored under the key. An exception is raised exactly when
  no finite float results: when the parse fails (\<open>ValueError\<close>), and also when it yields an
  infinity (\<open>OverflowError\<close>) or a NaN (\<open>ValueError\<close>), which \<open>int\<close> rejects. Decoding
  \<open>"x=2.3e-8"\<close> stores 0 under \<open>x\<close> and decoding \<open>"x=5"\<close> stores 5.

  The claim says that an exception is raised exactly when the float parse fails. The
  counterexample below is the token \<open>"x=nan"\<close>: the parse succeeds and decoding raises.
\<close>

theorem OrganizeT3Info_number:
  assumes k: "CHR ''='' \<notin> set k"
    and nb: "\<not> (prefix ''{'' (py_strip v) \<and> suffix ''}'' (py_strip v))"
    and nq: "\<not> (prefix [CHR 0x22] (py_strip v) \<and> suffix [CHR 0x22] (py_strip v))"
  shows "OrganizeT3Info_loop ((k @ CHR ''='' # v) # rest) info =
     (case py_float (py_strip v) of
        Inl e \<Rightarrow> Inl e
      | Inr (Finite r) \<Rightarrow>
          OrganizeT3Info_loop rest (info(k \<mapsto> VInt (if 0 \<le> r then \<lfloor>r\<rfloor> else \<lceil>r\<rceil>)))
      | Inr PInf \<Rightarrow> Inl OverflowError
      | Inr NInf \<Rightarrow> Inl OverflowError
      | Inr NaN \<Rightarrow> Inl ValueError) \<and>
    ((\<exists>e. OrganizeT3Info [k @ CHR ''='' # v] = Inl e) \<longleftrightarrow>
       (\<forall>r. py_float (py_strip v) \<noteq> Inr (Finite r))) \<and>
    (\<forall>r::rat. \<bar>of_int (if 0 \<le> r then \<lfloor>r\<rfloor> else \<lceil>r\<rceil>)\<bar> \<le> \<bar>r\<bar> \<and>
       \<bar>r - of_int (if 0 \<le> r then \<lfloor>r\<rfloor> else \<lceil>r\<rceil>)\<bar> < 1) \<and>
    OrganizeT3Info [''x=2.3e-8''] = Inr [''x'' \<mapsto> VInt 0] \<and>
    OrganizeT3Info [''x=5''] = Inr [''x'' \<mapsto> VInt 5]"
proof (intro conjI)
  note tok = OrganizeT3Info_loop_token[OF k]
  note dv = decode_value_number[OF nb nq]
  show "OrganizeT3Info_loop ((k @ CHR ''='' # v) # rest) info =
     (case py_float (py_strip v) of
        Inl e \<Rightarrow> Inl e
      | Inr (Finite r) \<Rightarrow>
          OrganizeT3Info_loop rest (info(k \<mapsto> VInt (if 0 \<le> r then \<lfloor>r\<rfloor> else \<lceil>r\<rceil>)))
      | Inr PInf \<Rightarrow> Inl OverflowError
      | Inr NInf \<Rightarrow> Inl OverflowError
      | Inr NaN \<Rightarrow> Inl ValueError)"
    unfolding tok dv by (simp split: sum.splits pyfloat.splits)
  show "(\<exists>e. OrganizeT3Info [k @ CHR ''='' # v] = Inl e) \<longleftrightarrow>
       (\<forall>r. py_float (py_strip v) \<noteq> Inr (Finite r))"
    unfolding OrganizeT3Info_def tok dv by (simp split: sum.splits pyfloat.splits)
  show "\<forall>r::rat. \<bar>of_int (if 0 \<le> r then \<lfloor>r\<rfloor> else \<lceil>r\<rceil>)\<bar> \<le> \<bar>r\<bar> \<and>
       \<bar>r - of_int (if 0 \<le> r then \<lfloor>r\<rfloor> else \<lceil>r\<rceil>)\<bar> < 1"
    using truncation_toward_zero by blast
  have "py_strip ''2.3e-8'' = ''2.3e-8''"
    by (rule py_strip_plain) (simp_all add: py_isspace_def)
  then show "OrganizeT3Info [''x=2.3e-8''] = Inr [''x'' \<mapsto> VInt 0]"
    using OrganizeT3Info_loop_token[of "''x''" "''2.3e-8''" "[]" Map.empty]
    by (simp add: OrganizeT3Info_def decode_value_def py_float_2_3e_8 py_int_of_float_def
        floor_div_numeral_rat del: OrganizeT3Info_loop.simps(2))
  have "py_strip ''5'' = ''5''"
    by (rule py_strip_plain) (simp_all add: py_isspace_def)
  then show "OrganizeT3Info [''x=5''] = Inr [''x'' \<mapsto> VInt 5]"
    using OrganizeT3Info_loop_token[of "''x''" "''5''" "[]" Map.empty]
    by (simp add: OrganizeT3Info_def decode_value_def py_float_5 py_int_of_float_def
        del: OrganizeT3Info_loop.simps(2))
qed

theorem OrganizeT3Info_number_witness:
  "CHR ''='' \<notin> set ''t'' \<and>
   \<not> (prefix ''{'' (py_strip ''-1.5'') \<and> suffix ''}'' (py_strip ''-1.5'')) \<and>
   \<not> (prefix [CHR 0x22] (py_strip ''-1.5'') \<and> suffix [CHR 0x22] (py_strip ''-1.5'')) \<and>
   py_float (py_strip ''-1.5'') = Inr (Finite (- 3 / 2)) \<and>
   OrganizeT3Info_loop [''t=-1.5''] Map.empty = Inr [''t'' \<mapsto> VInt (- 1)]"
proof -
  have s: "py_strip ''-1.5'' = ''-1.5''"
    by (rule py_strip_plain) (simp_all add: py_isspace_def)
  have a: "CHR ''='' \<notin> set ''t''" by simp
  have b: "\<not> (prefix ''{'' (py_strip ''-1.5'') \<and> suffix ''}'' (py_strip ''-1.5''))"
    unfolding s by simp
  have c: "\<not> (prefix [CHR 0x22] (py_strip ''-1.5'') \<and> suffix [CHR 0x22] (py_strip ''-1.5''))"
    unfolding s by simp
  have f: "py_float (py_strip ''-1.5'') = Inr (Finite (- 3 / 2))"
    unfolding s by (rule py_float_m1_5)
  have ce: "\<lceil>- (3 / 2) :: rat\<rceil> = - 1"
    by (simp add: ceiling_def floor_div_numeral_rat)
  from OrganizeT3Info_number[OF a b c, of "[]" Map.empty, THEN conjunct1] a b c f ce
  show ?thesis by simp
qed

theorem OrganizeT3Info_number_counterexample:
  "py_float (py_strip ''nan'') = Inr NaN \<and> OrganizeT3Info [''x=nan''] = Inl ValueError"
proof -
  have s: "py_strip ''nan'' = ''nan''"
    by (rule py_strip_plain) (simp_all add: py_isspace_def)
  show ?thesis
    using OrganizeT3Info_loop_token[of "''x''" "''nan''" "[]" Map.empty]
    by (simp add: s OrganizeT3Info_def decode_value_def py_float_nan py_int_of_float_def
        del: OrganizeT3Info_loop.simps(2))
qed

text \<open>
  Claim C4, as the code has it. A token that contains \<open>=\<close> is split at its first \<open>=\<close>
  only: with \<open>k\<close> free of \<open>=\<close>, the token \<open>k=v\<close> is decoded from the stripped \<open>v\<close>, further
  \<open>=\<close> signs included, and the result is stored under the key \<open>k\<close> as it stands. Only the
  value is stripped, the key is not.

  The claim says that the key is the trimmed left side. The counterexample below is the
  one-token sub-record \<open>"k\t={1}"\<close>: the key stored is \<open>"k\t"\<close>, and nothing is stored
  under its trimmed form \<open>"k"\<close>.
\<close>

theorem OrganizeT3Info_key_verbatim:
  assumes "CHR ''='' \<notin> set k"
  shows "OrganizeT3Info_loop ((k @ CHR ''='' # v) # rest) info =
           (case decode_value (py_strip v) of
              Inl e \<Rightarrow> Inl e
            | Inr x \<Rightarrow> OrganizeT3Info_loop rest (info(k \<mapsto> x))) \<and>
         OrganizeT3Info [k @ CHR ''='' # v] =
           (case decode_value (py_strip v) of Inl e \<Rightarrow> Inl e | Inr x \<Rightarrow> Inr [k \<mapsto> x])"
  using OrganizeT3Info_loop_token[OF assms]
  by (simp add: OrganizeT3Info_def del: OrganizeT3Info_loop.simps(2) split: sum.splits)

theorem OrganizeT3Info_key_verbatim_witness:
  "CHR ''='' \<notin> set ''name '' \<and>
   decode_value (py_strip ('' '' @ [CHR 0x22] @ ''a=b'' @ [CHR 0x22])) =
     Inr (VStr ([CHR 0x22] @ ''a=b'' @ [CHR 0x22])) \<and>
   OrganizeT3Info [''name = '' @ [CHR 0x22] @ ''a=b'' @ [CHR 0x22]] =
     Inr [''name '' \<mapsto> VStr ([CHR 0x22] @ ''a=b'' @ [CHR 0x22])]"
proof -
  have a: "CHR ''='' \<notin> set ''name ''" by simp
  have s: "py_strip ('' '' @ [CHR 0x22] @ ''a=b'' @ [CHR 0x22]) = [CHR 0x22] @ ''a=b'' @ [CHR 0x22]"
    by (simp add: py_strip_def py_isspace_def)
  have d: "decode_value (py_strip ('' '' @ [CHR 0x22] @ ''a=b'' @ [CHR 0x22])) =
     Inr (VStr ([CHR 0x22] @ ''a=b'' @ [CHR 0x22]))"
    unfolding s by (simp add: decode_value_def suffix_def)
  from OrganizeT3Info_key_verbatim[OF a, of "'' '' @ [CHR 0x22] @ ''a=b'' @ [CHR 0x22]" "[]" Map.empty]
    a d show ?thesis by simp
qed

theorem OrganizeT3Info_key_trimmed_counterexample:
  "GetT3RequestInfo (''k'' @ [CHR 0x09] @ ''={1}'') (Some '' '') = [''k'' @ [CHR 0x09] @ ''={1}''] \<and>
   OrganizeT3Info [''k'' @ [CHR 0x09] @ ''={1}''] = Inr [''k'' @ [CHR 0x09] \<mapsto> VList [1]] \<and>
   py_strip (''k'' @ [CHR 0x09]) = ''k'' \<and>
   [''k'' @ [CHR 0x09] \<mapsto> VList [1]] ''k'' = None"
proof -
  have s: "py_strip ''{1}'' = ''{1}''"
    by (rule py_strip_plain) (simp_all add: py_isspace_def)
  have i: "py_int ''1'' = Inr 1"
    by code_simp
  have d: "decode_value ''{1}'' = Inr (VList [1])"
    by (simp add: decode_value_def suffix_def s i py_strip_def py_isspace_def)
  have "OrganizeT3Info [''k'' @ [CHR 0x09] @ ''={1}''] = Inr [''k'' @ [CHR 0x09] \<mapsto> VList [1]]"
    using OrganizeT3Info_loop_token[of "''k'' @ [CHR 0x09]" "''{1}''" "[]" Map.empty]
    by (simp add: OrganizeT3Info_def s d del: OrganizeT3Info_loop.simps(2))
  moreover have "py_strip (''k'' @ [CHR 0x09]) = ''k''"
    by (simp add: py_strip_def py_isspace_def)
  moreover have "GetT3RequestInfo (''k'' @ [CHR 0x09] @ ''={1}'') (Some '' '') =
      [''k'' @ [CHR 0x09] @ ''={1}'']"
    by (simp add: GetT3RequestInfo_def)
  ultimately show ?thesis by simp
qed

section \<open>Properties of the selector\<close>

lemma first_index:
  assumes "i < length xs" and "xs ! i = x" and "\<forall>j<i. xs ! j \<noteq> x"
  shows "length (takeWhile (\<lambda>y. y \<noteq> x) xs) = i"
proof -
  have "takeWhile (\<lambda>y. y \<noteq> x) xs = take i xs"
    using assms by (intro takeWhile_eq_take_P_nth) auto
  with assms(1) show ?thesis by simp
qed

lemma py_index_first:
  assumes "i < length xs" and "xs ! i = x" and "\<forall>j<i. xs ! j \<noteq> x"
  shows "py_index (VList xs) x = Inr i"
proof -
  have "x \<in> set xs" using assms(1,2) by (auto simp: in_set_conv_nth)
  then show ?thesis by (simp add: py_index_def first_index[OF assms])
qed

lemma py_index_found:
  assumes "i < length xs" and "xs ! i = x" and "distinct xs \<or> (\<forall>j<i. xs ! j \<noteq> x)"
  shows "py_index (VList xs) x = Inr i"
proof -
  have "\<forall>j<i. xs ! j \<noteq> x"
  proof (intro allI impI)
    fix j
    assume j: "j < i"
    show "xs ! j \<noteq> x"
    proof (cases "distinct xs")
      case True
      then show ?thesis
        using j assms(1,2) by (auto simp: nth_eq_iff_index_eq)
    next
      case False
      with assms(3) j show ?thesis by simp
    qed
  qed
  then show ?thesis by (rule py_index_first[OF assms(1,2)])
qed

lemma first_occurrence:
  "n \<in> set xs \<Longrightarrow>
     length (takeWhile (\<lambda>y. y \<noteq> n) xs) < length xs \<and>
     xs ! length (takeWhile (\<lambda>y. y \<noteq> n) xs) = n \<and>
     (\<forall>j < length (takeWhile (\<lambda>y. y \<noteq> n) xs). xs ! j \<noteq> n)"
proof (induction xs)
  case Nil
  then show ?case by simp
next
  case (Cons x xs)
  show ?case
  proof (cases "x = n")
    case True
    then show ?thesis by simp
  next
    case False
    with Cons show ?thesis by (auto simp: less_Suc_eq_0_disj)
  qed
qed

lemma py_index_located:
  assumes "n \<in> set xs"
  shows "\<exists>i < length xs. py_index (VList xs) n = Inr i \<and> xs ! i = n \<and> (\<forall>j<i. xs ! j \<noteq> n)"
  using first_occurrence[OF assms] assms by (auto simp: py_index_def)

text \<open>
  Claim C3, as the code has it. Let the decoded record hold the list \<open>addrs\<close> under
  \<open>addresses\<close>, lists \<open>offs\<close> and \<open>wins\<close> under \<open>offsets\<close> and \<open>window\<close>, and values under
  \<open>refSecond\<close> and \<open>refuSecond\<close>. Let \<open>i\<close> be the first index of \<open>addrs\<close> that holds the
  target, which is the index the lookup finds and the only such index when the station
  identifiers are distinct; and let \<open>offs\<close> and \<open>wins\<close> be longer than \<open>i\<close>. Then the
  selector returns \<open>refSecond\<close>, \<open>refuSecond\<close>, \<open>offs[i]\<close> and \<open>wins[i]\<close>, on the record and
  on every token list that decodes to it. The witness is the record of the claim: target
  97 in \<open>[12, 97, 33]\<close> gives \<open>(1000, 200, 2, 5)\<close>.

  The claim speaks of any index holding the target. The counterexample below has the
  target at indices 0 and 2 of \<open>[97, 12, 97]\<close>: the selector returns the offset and the
  window at index 0, not those at index 2.
\<close>

theorem GetLetyInfo_projection:
  assumes "data ''addresses'' = Some (VList addrs)"
    and "i < length addrs" and "addrs ! i = LetyID"
    and "distinct addrs \<or> (\<forall>j<i. addrs ! j \<noteq> LetyID)"
    and "data ''offsets'' = Some (VList offs)" and "i < length offs"
    and "data ''window'' = Some (VList wins)" and "i < length wins"
    and "data ''refSecond'' = Some sec" and "data ''refuSecond'' = Some usec"
  shows "GetLetyInfo_data data LetyID = Inr [sec, usec, VInt (offs ! i), VInt (wins ! i)] \<and>
         (OrganizeT3Info t3info = Inr data \<longrightarrow>
            GetLetyInfo t3info LetyID = Inr [sec, usec, VInt (offs ! i), VInt (wins ! i)])"
  using assms(1,5-) py_index_found[OF assms(2,3,4)]
  by (simp add: GetLetyInfo_def GetLetyInfo_data_def py_lookup_def py_getitem_def)

theorem GetLetyInfo_projection_witness:
  "GetLetyInfo_data
     [''addresses'' \<mapsto> VList [12, 97, 33], ''offsets'' \<mapsto> VList [1, 2, 3],
      ''window'' \<mapsto> VList [0, 5, 0], ''refSecond'' \<mapsto> VInt 1000, ''refuSecond'' \<mapsto> VInt 200] 97 =
   Inr [VInt 1000, VInt 200, VInt 2, VInt 5]"
proof -
  let ?data = "[''addresses'' \<mapsto> VList [12, 97, 33], ''offsets'' \<mapsto> VList [1, 2, 3],
      ''window'' \<mapsto> VList [0, 5, 0], ''refSecond'' \<mapsto> VInt 1000, ''refuSecond'' \<mapsto> VInt 200]"
  have "distinct [12, 97, 33 :: int] \<or> (\<forall>j<1::nat. [12, 97, 33 :: int] ! j \<noteq> 97)" by simp
  from GetLetyInfo_projection[of ?data "[12, 97, 33]" 1 97 "[1, 2, 3]" "[0, 5, 0]" "VInt 1000" "VInt 200", OF _ _ _ this]
  show ?thesis by simp
qed

theorem GetLetyInfo_projection_counterexample:
  "[97, 12, 97 :: int] ! 2 = 97 \<and> [1, 2, 3 :: int] ! 2 = 3 \<and> [4, 5, 6 :: int] ! 2 = 6 \<and>
   GetLetyInfo_data
     [''addresses'' \<mapsto> VList [97, 12, 97], ''offsets'' \<mapsto> VList [1, 2, 3],
      ''window'' \<mapsto> VList [4, 5, 6], ''refSecond'' \<mapsto> VInt 1000, ''refuSecond'' \<mapsto> VInt 200] 97 =
     Inr [VInt 1000, VInt 200, VInt 1, VInt 4]"
  by (simp add: GetLetyInfo_data_def py_lookup_def py_index_def py_getitem_def)

text \<open>
  Claim C8, as the code has it. Let the decoded record hold the target under \<open>addresses\<close>
  with first index \<open>i\<close>, the index the lookup finds and the only one when the station
  identifiers are distinct, and let the list under \<open>offsets\<close> or the list under \<open>window\<close>
  have no element \<open>i\<close>. Then the selector raises \<open>IndexError\<close>, on the record and on every
  token list that decodes to it. Whenever the line loop calls the selector on such a
  record, that is on a line that passes the shape filter and the test of the raw address
  text, the step for the line raises the exception, writing nothing, and the loop stops
  there with it, leaving the remaining lines unread.

  The claim speaks of any index holding the target. The counterexample below has the
  target at indices 0 and 1 of \<open>[97, 97]\<close> and one-element lists under \<open>offsets\<close> and
  \<open>window\<close>: index 1 is beyond both, yet the selector reads index 0 and returns a result.
\<close>

theorem GetLetyInfo_length_mismatch:
  assumes addr: "data ''addresses'' = Some (VList addrs)"
      "i < length addrs" "addrs ! i = LetyID"
      "distinct addrs \<or> (\<forall>j<i. addrs ! j \<noteq> LetyID)"
    and offs: "data ''offsets'' = Some (VList offs)"
    and wins: "data ''window'' = Some (VList wins)"
    and short: "length offs \<le> i \<or> length wins \<le> i"
  shows "GetLetyInfo_data data LetyID = Inl IndexError \<and>
         (\<forall>t3info. OrganizeT3Info t3info = Inr data \<longrightarrow>
            GetLetyInfo t3info LetyID = Inl IndexError) \<and>
         (\<forall>line entry raw st rest.
            length (py_split CHR ''|'' (py_strip line)) = 6 \<longrightarrow>
            ''IkT3'' \<in> set (py_split CHR ''|'' (py_strip line)) \<longrightarrow>
            find (prefix ''addresses='')
              (GetT3RequestInfo (py_split CHR ''|'' (py_strip line) ! 4) (Some '' '')) =
              Some entry \<longrightarrow>
            address_pieces entry = Inr raw \<longrightarrow> py_str_int LetyID \<in> set raw \<longrightarrow>
            OrganizeT3Info
              (GetT3RequestInfo (py_split CHR ''|'' (py_strip line) ! 4) (Some '' '')) =
              Inr data \<longrightarrow>
            process_line LetyID st line = Inl IndexError \<and>
            ParseIkLog_loop LetyID (line # rest) st = (st, Some IndexError))"
proof (intro conjI allI impI)
  show 1: "GetLetyInfo_data data LetyID = Inl IndexError"
    using addr(1) offs wins short py_index_found[OF addr(2,3,4)]
    by (auto simp: GetLetyInfo_data_def py_lookup_def py_getitem_def)
  show "GetLetyInfo t3info LetyID = Inl IndexError" if "OrganizeT3Info t3info = Inr data"
    for t3info
    using that 1 by (simp add: GetLetyInfo_def)
  fix line entry raw st rest
  let ?cols = "py_split CHR ''|'' (py_strip line)"
  let ?toks = "GetT3RequestInfo (?cols ! 4) (Some '' '')"
  assume cols: "length ?cols = 6" "''IkT3'' \<in> set ?cols"
    and guard: "find (prefix ''addresses='') ?toks = Some entry"
      "address_pieces entry = Inr raw" "py_str_int LetyID \<in> set raw"
    and dec: "OrganizeT3Info ?toks = Inr data"
  have 2: "GetLetyInfo ?toks LetyID = Inl IndexError"
    using dec 1 by (simp add: GetLetyInfo_def)
  have "entry \<noteq> []" using guard(1) by (auto simp: find_Some_iff)
  then have "process_t3 LetyID st (?cols ! 4) = Inl IndexError"
    using guard 2 by (simp add: process_t3_def)
  then show 3: "process_line LetyID st line = Inl IndexError"
    using cols by (simp add: process_line_def)
  then show "ParseIkLog_loop LetyID (line # rest) st = (st, Some IndexError)"
    by simp
qed

theorem GetLetyInfo_length_mismatch_witness:
  "GetLetyInfo [''addresses={12 97}'', ''offsets={1}'', ''window={1 2}''] 97 = Inl IndexError \<and>
   ParseIkLog_loop 97
     [''t|x|m|IkT3|addresses={12 97} offsets={1} window={1 2}|z'', ''t|x|m|IkT3|a=1|z'']
     \<lparr>fileout = [], letyNum = 0\<rparr> =
   (\<lparr>fileout = [], letyNum = 0\<rparr>, Some IndexError)"
proof -
  let ?line = "''t|x|m|IkT3|addresses={12 97} offsets={1} window={1 2}|z''"
  let ?cols = "[''t'', ''x'', ''m'', ''IkT3'', ''addresses={12 97} offsets={1} window={1 2}'', ''z'']"
  let ?toks = "[''addresses={12 97}'', ''offsets={1}'', ''window={1 2}'']"
  let ?data = "[''addresses'' \<mapsto> VList [12, 97], ''offsets'' \<mapsto> VList [1],
                ''window'' \<mapsto> VList [1, 2]]"
  have s: "py_strip ?line = ?line"
    by (rule py_strip_plain) (simp_all add: py_isspace_def)
  have c: "py_split CHR ''|'' (py_strip ?line) = ?cols"
    unfolding s by simp
  have c2: "length (py_split CHR ''|'' (py_strip ?line)) = 6"
    and c3: "''IkT3'' \<in> set (py_split CHR ''|'' (py_strip ?line))"
    unfolding c by simp_all
  have t: "GetT3RequestInfo (py_split CHR ''|'' (py_strip ?line) ! 4) (Some '' '') = ?toks"
    unfolding c by (simp add: GetT3RequestInfo_def)
  have g1: "find (prefix ''addresses='')
      (GetT3RequestInfo (py_split CHR ''|'' (py_strip ?line) ! 4) (Some '' '')) =
      Some ''addresses={12 97}''"
    unfolding t by simp
  have g2: "address_pieces ''addresses={12 97}'' = Inr [''12'', ''97'']"
    by (simp add: address_pieces_def py_strip_chars_def)
  have g3: "py_str_int 97 \<in> set [''12'', ''97'']"
    by (simp add: py_str_int_def digits_of_nat.simps)
  have d1: "decode_value ''{12 97}'' = Inr (VList [12, 97])"
    and d2: "decode_value ''{1}'' = Inr (VList [1])"
    and d3: "decode_value ''{1 2}'' = Inr (VList [1, 2])"
    by code_simp+
  have dec0: "OrganizeT3Info ?toks = Inr ?data"
    using OrganizeT3Info_loop_token[of "''addresses''" "''{12 97}''"]
      OrganizeT3Info_loop_token[of "''offsets''" "''{1}''"]
      OrganizeT3Info_loop_token[of "''window''" "''{1 2}''"]
      py_strip_braces[of "''12 97''"] py_strip_braces[of "''1''"] py_strip_braces[of "''1 2''"]
    by (simp add: OrganizeT3Info_def d1 d2 d3 del: OrganizeT3Info_loop.simps(2))
  have dec: "OrganizeT3Info
      (GetT3RequestInfo (py_split CHR ''|'' (py_strip ?line) ! 4) (Some '' '')) = Inr ?data"
    unfolding t by (rule dec0)
  have a1: "?data ''addresses'' = Some (VList [12, 97])"
    and o1: "?data ''offsets'' = Some (VList [1])"
    and w1: "?data ''window'' = Some (VList [1, 2])"
    by simp_all
  have a2: "1 < length [12, 97 :: int]" and a3: "[12, 97 :: int] ! 1 = 97"
    and a4: "distinct [12, 97 :: int] \<or> (\<forall>j<1::nat. [12, 97 :: int] ! j \<noteq> 97)"
    and sh: "length [1 :: int] \<le> 1 \<or> length [1, 2 :: int] \<le> 1"
    by simp_all
  note mm = GetLetyInfo_length_mismatch[OF a1 a2 a3 a4 o1 w1 sh]
  from mm dec0 have 1: "GetLetyInfo ?toks 97 = Inl IndexError"
    by blast
  from mm c2 c3 g1 g2 g3 dec
  have 2: "ParseIkLog_loop 97 (?line # [''t|x|m|IkT3|a=1|z'']) \<lparr>fileout = [], letyNum = 0\<rparr> =
      (\<lparr>fileout = [], letyNum = 0\<rparr>, Some IndexError)"
    by blast
  from 1 2 show ?thesis by simp
qed

theorem GetLetyInfo_length_mismatch_counterexample:
  "[97, 97 :: int] ! 1 = 97 \<and> length [1 :: int] < 1 + 1 \<and>
   GetLetyInfo_data
     [''addresses'' \<mapsto> VList [97, 97], ''offsets'' \<mapsto> VList [1], ''window'' \<mapsto> VList [4],
      ''refSecond'' \<mapsto> VInt 1000, ''refuSecond'' \<mapsto> VInt 200] 97 =
     Inr [VInt 1000, VInt 200, VInt 1, VInt 4]"
  by (simp add: GetLetyInfo_data_def py_lookup_def py_index_def py_getitem_def)

section \<open>Properties of the line loop\<close>

text \<open>
  Claim C10. Let a line split into exactly six fields, one of them \<open>IkT3\<close>, and let no
  token of its sub-record (field 4) start with \<open>addresses=\<close>. Then the step for the line
  returns the state unchanged, so nothing is written and nothing is raised, and the loop
  goes on with the next line.
\<close>

theorem ParseIkLog_no_addresses_token:
  assumes "length (py_split CHR ''|'' (py_strip line)) = 6"
    and "''IkT3'' \<in> set (py_split CHR ''|'' (py_strip line))"
    and "\<forall>t \<in> set (GetT3RequestInfo (py_split CHR ''|'' (py_strip line) ! 4) (Some '' '')).
           \<not> prefix ''addresses='' t"
  shows "process_line LetyID st line = Inr st \<and>
         ParseIkLog_loop LetyID (line # rest) st = ParseIkLog_loop LetyID rest st"
proof -
  have "find (prefix ''addresses='')
          (GetT3RequestInfo (py_split CHR ''|'' (py_strip line) ! 4) (Some '' '')) = None"
    using assms(3) by (simp add: find_None_iff)
  then have "process_line LetyID st line = Inr st"
    using assms(1,2) by (simp add: process_line_def process_t3_def)
  then show ?thesis by simp
qed

theorem ParseIkLog_no_addresses_token_witness:
  "length (py_split CHR ''|'' (py_strip ''t|x|m|IkT3|refSecond=5 offsets={1}|z'')) = 6 \<and>
   ''IkT3'' \<in> set (py_split CHR ''|'' (py_strip ''t|x|m|IkT3|refSecond=5 offsets={1}|z'')) \<and>
   GetT3RequestInfo (py_split CHR ''|'' (py_strip ''t|x|m|IkT3|refSecond=5 offsets={1}|z'') ! 4)
     (Some '' '') = [''refSecond=5'', ''offsets={1}''] \<and>
   process_line 97 \<lparr>fileout = [], letyNum = 0\<rparr> ''t|x|m|IkT3|refSecond=5 offsets={1}|z'' =
     Inr \<lparr>fileout = [], letyNum = 0\<rparr> \<and>
   ParseIkLog_loop 97 [''t|x|m|IkT3|refSecond=5 offsets={1}|z''] \<lparr>fileout = [], letyNum = 0\<rparr> =
     (\<lparr>fileout = [], letyNum = 0\<rparr>, None)"
proof -
  let ?line = "''t|x|m|IkT3|refSecond=5 offsets={1}|z''"
  have s: "py_strip ?line = ?line"
    by (rule py_strip_plain) (simp_all add: py_isspace_def)
  have c: "py_split CHR ''|'' (py_strip ?line) =
      [''t'', ''x'', ''m'', ''IkT3'', ''refSecond=5 offsets={1}'', ''z'']"
    unfolding s by simp
  have t: "GetT3RequestInfo (py_split CHR ''|'' (py_strip ?line) ! 4) (Some '' '') =
      [''refSecond=5'', ''offsets={1}'']"
    unfolding c by (simp add: GetT3RequestInfo_def)
  have a1: "length (py_split CHR ''|'' (py_strip ?line)) = 6"
    and a2: "''IkT3'' \<in> set (py_split CHR ''|'' (py_strip ?line))"
    unfolding c by simp_all
  have a3: "\<forall>t \<in> set (GetT3RequestInfo (py_split CHR ''|'' (py_strip ?line) ! 4) (Some '' '')).
           \<not> prefix ''addresses='' t"
    unfolding t by simp
  from ParseIkLog_no_addresses_token[OF a1 a2 a3, of 97 "\<lparr>fileout = [], letyNum = 0\<rparr>" "[]"]
    a1 a2 t show ?thesis by simp
qed

lemma canonical_body_chars:
  assumes "c \<in> set (join_with '' '' (map py_str_int addrs))"
  shows "c \<noteq> CHR ''='' \<and> c \<noteq> CHR ''{'' \<and> c \<noteq> CHR ''}''"
proof -
  from join_with_chars[OF assms] have "c = CHR '' '' \<or> c = CHR ''-'' \<or> is_digit c"
    by (auto dest: py_str_int_chars)
  then show ?thesis using space_not_digit by auto
qed

lemma address_pieces_canonical:
  "address_pieces (''addresses={'' @ join_with '' '' (map py_str_int addrs) @ ''}'') =
     Inr (if addrs = [] then [[]] else map py_str_int addrs)"
proof -
  let ?body = "join_with '' '' (map py_str_int addrs)"
  have nb: "\<forall>c\<in>set ?body. c \<noteq> CHR ''{'' \<and> c \<noteq> CHR ''}''"
    and ne: "CHR ''='' \<notin> set ?body"
    using canonical_body_chars by blast+
  have "CHR ''='' \<notin> set (CHR ''{'' # ?body @ ''}'')" using ne by simp
  then have "py_split CHR ''='' (CHR ''{'' # ?body @ ''}'') = [CHR ''{'' # ?body @ ''}'']"
    by (rule py_split_no_sep)
  then have sp: "py_split CHR ''='' (''addresses'' @ CHR ''='' # (CHR ''{'' # ?body @ ''}'')) =
      [''addresses'', CHR ''{'' # ?body @ ''}'']"
    using py_split_append[of "CHR ''=''" "''addresses''" "CHR ''{'' # ?body @ ''}''"]
    by (simp del: py_split.simps)
  have pieces: "py_split CHR '' '' ?body = (if addrs = [] then [[]] else map py_str_int addrs)"
  proof (cases "addrs = []")
    case True
    then show ?thesis by simp
  next
    case False
    have "\<forall>x\<in>set (map py_str_int addrs). CHR '' '' \<notin> set x"
      using py_str_int_chars space_not_digit(1) by auto
    with False show ?thesis
      using py_split_join[of "map py_str_int addrs" "CHR '' ''"] by simp
  qed
  show ?thesis
    using sp by (simp add: address_pieces_def py_strip_chars_braces[OF nb] pieces)
qed

lemma py_str_int_mem_canonical:
  "py_str_int n \<in> set (if addrs = [] then [[]] else map py_str_int addrs) \<longleftrightarrow> n \<in> set addrs"
  using py_str_int_nonempty[of n] by (auto dest: py_str_int_inj)

lemma py_split_nonempty: "py_split sep s \<noteq> []"
  by (induction s) (auto split: list.splits)

lemma address_pieces_defined:
  assumes "prefix ''addresses='' entry"
  shows "\<exists>raw. address_pieces entry = Inr raw"
proof -
  from assms obtain rest where e: "entry = ''addresses'' @ CHR ''='' # rest"
    by (auto simp: prefix_def)
  have "py_split CHR ''='' entry = ''addresses'' # py_split CHR ''='' rest"
    unfolding e by (rule py_split_append) simp
  moreover obtain p1 ps where "py_split CHR ''='' rest = p1 # ps"
    using py_split_nonempty[of "CHR ''=''" rest] by (cases "py_split CHR ''='' rest") auto
  ultimately show ?thesis by (simp add: address_pieces_def)
qed

lemma example_tokens:
  "GetT3RequestInfo
     ''refSecond=555 refuSecond=10 addresses={12 97} offsets={3 7} window={1 0}'' (Some '' '') =
   [''refSecond=555'', ''refuSecond=10'', ''addresses={12 97}'', ''offsets={3 7}'',
    ''window={1 0}'']"
  by (simp add: GetT3RequestInfo_def)

lemma example_decode:
  "OrganizeT3Info
     [''refSecond=555'', ''refuSecond=10'', ''addresses={12 97}'', ''offsets={3 7}'',
      ''window={1 0}''] =
   Inr [''refSecond'' \<mapsto> VInt 555, ''refuSecond'' \<mapsto> VInt 10,
        ''addresses'' \<mapsto> VList [12, 97], ''offsets'' \<mapsto> VList [3, 7],
        ''window'' \<mapsto> VList [1, 0]]"
proof -
  have sp: "py_strip ''555'' = ''555''" "py_strip ''10'' = ''10''"
    by (rule py_strip_plain; simp add: py_isspace_def)+
  have d: "decode_value ''555'' = Inr (VInt 555)" "decode_value ''10'' = Inr (VInt 10)"
    by (simp_all add: decode_value_def py_float_555 py_float_10 py_int_of_float_def)
  have dl: "decode_value ''{12 97}'' = Inr (VList [12, 97])"
    "decode_value ''{3 7}'' = Inr (VList [3, 7])" "decode_value ''{1 0}'' = Inr (VList [1, 0])"
    by code_simp+
  show ?thesis
    using OrganizeT3Info_loop_token[of "''refSecond''" "''555''"]
      OrganizeT3Info_loop_token[of "''refuSecond''" "''10''"]
      OrganizeT3Info_loop_token[of "''addresses''" "''{12 97}''"]
      OrganizeT3Info_loop_token[of "''offsets''" "''{3 7}''"]
      OrganizeT3Info_loop_token[of "''window''" "''{1 0}''"]
      py_strip_braces[of "''12 97''"] py_strip_braces[of "''3 7''"] py_strip_braces[of "''1 0''"]
    by (simp add: OrganizeT3Info_def sp d dl del: OrganizeT3Info_loop.simps(2))
qed

lemma example_str: "py_str_int 97 = ''97''" "py_str_int 555 = ''555''" "py_str_int 10 = ''10''"
  "py_str_int 7 = ''7''" "py_str_int 0 = ''0''" "py_str_int 12 = ''12''" "py_str_int 33 = ''33''"
  by (simp_all add: py_str_int_def digits_of_nat.simps)

text \<open>
  Claim C1, as the code has it. Whether the target takes part is decided on the text of
  the first token that starts with \<open>addresses=\<close>: the line is skipped, with no exception,
  when there is no such token or when \<open>str(LetyID)\<close> is not among the space-separated
  pieces of its text between the first and the second \<open>=\<close>, braces stripped. When that
  token is a brace list of integers in their usual decimal form and the target is not in
  the list, the line is therefore skipped. When the text test passes and the tokens
  decode to a record with integer lists under \<open>addresses\<close>, \<open>offsets\<close> and \<open>window\<close> and
  values under \<open>refSecond\<close> and \<open>refuSecond\<close>, the selector looks the target up by value in
  the decoded \<open>addresses\<close>: with \<open>i\<close> the first index that holds the target, and the other
  two lists longer than \<open>i\<close>, it returns \<open>refSecond\<close>, \<open>refuSecond\<close>, \<open>offsets[i]\<close> and
  \<open>window[i]\<close>, and these are written as one line.

  The claim says that the target is looked up by value and that a target absent from the
  decoded \<open>addresses\<close> gives a skipped line. The counterexample below has two sub-records
  with target 97. For \<open>"addresses={97} addresses={12}"\<close> the text test reads the first
  token and passes, the decoded list is that of the last token, \<open>[12]\<close>, and the step
  raises \<open>ValueError\<close>. For \<open>"addresses={097}"\<close> the decoded list \<open>[97]\<close> holds the target
  by value, and the line is skipped because the text \<open>097\<close> is not \<open>97\<close>.
\<close>

theorem process_t3_selection:
  assumes toks: "GetT3RequestInfo t3string (Some '' '') = t3info"
  shows "(find (prefix ''addresses='') t3info = None \<longrightarrow>
            process_t3 LetyID st t3string = Inr st) \<and>
         (\<forall>entry. find (prefix ''addresses='') t3info = Some entry \<longrightarrow>
            (\<exists>raw. address_pieces entry = Inr raw)) \<and>
         (\<forall>entry raw. find (prefix ''addresses='') t3info = Some entry \<longrightarrow>
            address_pieces entry = Inr raw \<longrightarrow> py_str_int LetyID \<notin> set raw \<longrightarrow>
            process_t3 LetyID st t3string = Inr st) \<and>
         (\<forall>addrs. find (prefix ''addresses='') t3info =
              Some (''addresses={'' @ join_with '' '' (map py_str_int addrs) @ ''}'') \<longrightarrow>
            LetyID \<notin> set addrs \<longrightarrow> process_t3 LetyID st t3string = Inr st) \<and>
         (\<forall>entry raw data addrs offs wins sec usec i.
            find (prefix ''addresses='') t3info = Some entry \<longrightarrow>
            address_pieces entry = Inr raw \<longrightarrow> py_str_int LetyID \<in> set raw \<longrightarrow>
            OrganizeT3Info t3info = Inr data \<longrightarrow>
            data ''addresses'' = Some (VList addrs) \<longrightarrow>
            i < length addrs \<longrightarrow> addrs ! i = LetyID \<longrightarrow> (\<forall>j<i. addrs ! j \<noteq> LetyID) \<longrightarrow>
            data ''offsets'' = Some (VList offs) \<longrightarrow> i < length offs \<longrightarrow>
            data ''window'' = Some (VList wins) \<longrightarrow> i < length wins \<longrightarrow>
            data ''refSecond'' = Some sec \<longrightarrow> data ''refuSecond'' = Some usec \<longrightarrow>
            GetLetyInfo t3info LetyID = Inr [sec, usec, VInt (offs ! i), VInt (wins ! i)] \<and>
            process_t3 LetyID st t3string =
              Inr (st\<lparr>letyNum := letyNum st + 1,
                      fileout := fileout st @
                        [py_str sec @ '', '' @ py_str usec @ '', '' @ py_str (VInt (offs ! i))
                           @ '', '' @ py_str (VInt (wins ! i)) @ [CHR 0x0A]]\<rparr>))"
proof (intro conjI allI impI)
  show "process_t3 LetyID st t3string = Inr st"
    if "find (prefix ''addresses='') t3info = None"
    using that toks by (simp add: process_t3_def)
  show "\<exists>raw. address_pieces entry = Inr raw"
    if "find (prefix ''addresses='') t3info = Some entry" for entry
    using that by (intro address_pieces_defined) (auto simp: find_Some_iff)
  show "process_t3 LetyID st t3string = Inr st"
    if "find (prefix ''addresses='') t3info = Some entry" "address_pieces entry = Inr raw"
      "py_str_int LetyID \<notin> set raw" for entry raw
    using that toks by (simp add: process_t3_def)
  show "process_t3 LetyID st t3string = Inr st"
    if "find (prefix ''addresses='') t3info =
          Some (''addresses={'' @ join_with '' '' (map py_str_int addrs) @ ''}'')"
      "LetyID \<notin> set addrs" for addrs
    using that toks address_pieces_canonical[of addrs] py_str_int_mem_canonical[of LetyID addrs]
    by (simp add: process_t3_def del: join_with.simps)
  fix entry raw data addrs offs wins sec usec i
  assume guard: "find (prefix ''addresses='') t3info = Some entry"
      "address_pieces entry = Inr raw" "py_str_int LetyID \<in> set raw"
    and dec: "OrganizeT3Info t3info = Inr data"
    and addr: "data ''addresses'' = Some (VList addrs)"
      "i < length addrs" "addrs ! i = LetyID" "\<forall>j<i. addrs ! j \<noteq> LetyID"
    and rest: "data ''offsets'' = Some (VList offs)" "i < length offs"
      "data ''window'' = Some (VList wins)" "i < length wins"
      "data ''refSecond'' = Some sec" "data ''refuSecond'' = Some usec"
  show g: "GetLetyInfo t3info LetyID = Inr [sec, usec, VInt (offs ! i), VInt (wins ! i)]"
    using dec addr(1) rest py_index_first[OF addr(2,3,4)]
    by (simp add: GetLetyInfo_def GetLetyInfo_data_def py_lookup_def py_getitem_def)
  have "entry \<noteq> []" using guard(1) by (auto simp: find_Some_iff)
  then show "process_t3 LetyID st t3string =
      Inr (st\<lparr>letyNum := letyNum st + 1,
              fileout := fileout st @
                [py_str sec @ '', '' @ py_str usec @ '', '' @ py_str (VInt (offs ! i))
                   @ '', '' @ py_str (VInt (wins ! i)) @ [CHR 0x0A]]\<rparr>)"
    using guard toks g by (simp add: process_t3_def)
qed

theorem process_t3_selection_witness:
  "(97::int) \<notin> set [12, 33] \<and>
   process_t3 97 \<lparr>fileout = [], letyNum = 0\<rparr> ''addresses={12 33} offsets={1 2}'' =
     Inr \<lparr>fileout = [], letyNum = 0\<rparr> \<and>
   process_t3 97 \<lparr>fileout = [], letyNum = 0\<rparr>
     ''refSecond=555 refuSecond=10 addresses={12 97} offsets={3 7} window={1 0}'' =
     Inr \<lparr>fileout = [''555, 10, 7, 0'' @ [CHR 0x0A]], letyNum = 1\<rparr>"
proof -
  let ?st = "\<lparr>fileout = [], letyNum = 0\<rparr>"
  have t: "GetT3RequestInfo ''addresses={12 33} offsets={1 2}'' (Some '' '') =
     [''addresses={12 33}'', ''offsets={1 2}'']"
    by (simp add: GetT3RequestInfo_def)
  have f: "find (prefix ''addresses='') [''addresses={12 33}'', ''offsets={1 2}''] =
      Some (''addresses={'' @ join_with '' '' (map py_str_int [12, 33]) @ ''}'')"
    by (simp add: example_str)
  have n: "(97::int) \<notin> set [12, 33]" by simp
  from process_t3_selection[OF t, of 97 ?st] f n
  have 1: "process_t3 97 ?st ''addresses={12 33} offsets={1 2}'' = Inr ?st"
    by blast
  let ?toks = "[''refSecond=555'', ''refuSecond=10'', ''addresses={12 97}'', ''offsets={3 7}'',
                ''window={1 0}'']"
  let ?data = "[''refSecond'' \<mapsto> VInt 555, ''refuSecond'' \<mapsto> VInt 10,
        ''addresses'' \<mapsto> VList [12, 97], ''offsets'' \<mapsto> VList [3, 7],
        ''window'' \<mapsto> VList [1, 0]]"
  have g1: "find (prefix ''addresses='') ?toks = Some ''addresses={12 97}''" by simp
  have g2: "address_pieces ''addresses={12 97}'' = Inr [''12'', ''97'']"
    by (simp add: address_pieces_def py_strip_chars_def)
  have g3: "py_str_int 97 \<in> set [''12'', ''97'']" by (simp add: example_str)
  have d: "?data ''addresses'' = Some (VList [12, 97])" "?data ''offsets'' = Some (VList [3, 7])"
    "?data ''window'' = Some (VList [1, 0])" "?data ''refSecond'' = Some (VInt 555)"
    "?data ''refuSecond'' = Some (VInt 10)"
    by simp_all
  have i: "1 < length [12, 97 :: int]" "[12, 97 :: int] ! 1 = 97"
    "\<And>j. j < (1::nat) \<Longrightarrow> [12, 97 :: int] ! j \<noteq> 97"
    "1 < length [3, 7 :: int]" "1 < length [1, 0 :: int]"
    by simp_all
  from process_t3_selection[OF example_tokens, of 97 ?st, THEN conjunct2, THEN conjunct2,
      THEN conjunct2, THEN conjunct2, rule_format, OF g1 g2 g3 example_decode d(1) i(1,2,3) d(2) i(4) d(3) i(5) d(4,5)]
  have 2: "process_t3 97 ?st
     ''refSecond=555 refuSecond=10 addresses={12 97} offsets={3 7} window={1 0}'' =
     Inr \<lparr>fileout = [''555, 10, 7, 0'' @ [CHR 0x0A]], letyNum = 1\<rparr>"
    by (simp add: py_str_def example_str)
  from 1 2 n show ?thesis by simp
qed

theorem process_t3_absent_counterexample:
  "OrganizeT3Info (GetT3RequestInfo ''addresses={97} addresses={12}'' (Some '' '')) =
     Inr [''addresses'' \<mapsto> VList [12]] \<and>
   (97::int) \<notin> set [12] \<and>
   process_t3 97 \<lparr>fileout = [], letyNum = 0\<rparr> ''addresses={97} addresses={12}'' =
     Inl ValueError \<and>
   OrganizeT3Info (GetT3RequestInfo ''addresses={097}'' (Some '' '')) =
     Inr [''addresses'' \<mapsto> VList [97]] \<and>
   process_t3 97 \<lparr>fileout = [], letyNum = 0\<rparr> ''addresses={097}'' =
     Inr \<lparr>fileout = [], letyNum = 0\<rparr>"
proof -
  have t: "GetT3RequestInfo ''addresses={97} addresses={12}'' (Some '' '') =
     [''addresses={97}'', ''addresses={12}'']"
    "GetT3RequestInfo ''addresses={097}'' (Some '' '') = [''addresses={097}'']"
    by (simp_all add: GetT3RequestInfo_def)
  have d1: "decode_value ''{97}'' = Inr (VList [97])"
    and d2: "decode_value ''{12}'' = Inr (VList [12])"
    and d3: "decode_value ''{097}'' = Inr (VList [97])"
    by code_simp+
  have dec: "OrganizeT3Info [''addresses={97}'', ''addresses={12}''] =
      Inr [''addresses'' \<mapsto> VList [12]]"
    using OrganizeT3Info_loop_token[of "''addresses''" "''{97}''"]
      OrganizeT3Info_loop_token[of "''addresses''" "''{12}''"]
      py_strip_braces[of "''97''"] py_strip_braces[of "''12''"]
    by (simp add: OrganizeT3Info_def d1 d2 del: OrganizeT3Info_loop.simps(2))
  have dec3: "OrganizeT3Info [''addresses={097}''] = Inr [''addresses'' \<mapsto> VList [97]]"
    using OrganizeT3Info_loop_token[of "''addresses''" "''{097}''"] py_strip_braces[of "''097''"]
    by (simp add: OrganizeT3Info_def d3 del: OrganizeT3Info_loop.simps(2))
  have g: "address_pieces ''addresses={97}'' = Inr [''97'']"
    "address_pieces ''addresses={097}'' = Inr [''097'']"
    by (simp_all add: address_pieces_def py_strip_chars_def)
  have "GetLetyInfo [''addresses={97}'', ''addresses={12}''] 97 = Inl ValueError"
    by (simp add: GetLetyInfo_def dec GetLetyInfo_data_def py_lookup_def py_index_def)
  then have 1: "process_t3 97 \<lparr>fileout = [], letyNum = 0\<rparr> ''addresses={97} addresses={12}'' =
     Inl ValueError"
    by (simp add: process_t3_def t g example_str)
  have 2: "process_t3 97 \<lparr>fileout = [], letyNum = 0\<rparr> ''addresses={097}'' =
     Inr \<lparr>fileout = [], letyNum = 0\<rparr>"
    by (simp add: process_t3_def t g example_str)
  from 1 2 dec dec3 t show ?thesis by simp
qed

text \<open>
  The end-to-end example of the specification: a line with the wrong number of fields is
  skipped, and a trigger line in which station 97 has offset 7 and window 0 at
  \<open>refSecond\<close> 555 and \<open>refuSecond\<close> 10 adds the line \<open>555, 10, 7, 0\<close> after the header.
\<close>

lemma ParseIkLog_lines_example:
  "ParseIkLog_lines
     [''a|b|c'' @ [CHR 0x0A],
      ''t|x|m|IkT3|refSecond=555 refuSecond=10 addresses={12 97} offsets={3 7} window={1 0}|z''
        @ [CHR 0x0A]] 97 =
   (\<lparr>fileout = [''#gpsSec, gpsMicroSec, offset, window'' @ [CHR 0x0A],
                 ''555, 10, 7, 0'' @ [CHR 0x0A]],
      letyNum = 1\<rparr>, None)"
proof -
  let ?l1 = "''a|b|c'' @ [CHR 0x0A]"
  let ?t3 = "''refSecond=555 refuSecond=10 addresses={12 97} offsets={3 7} window={1 0}''"
  let ?l2 = "''t|x|m|IkT3|'' @ ?t3 @ ''|z'' @ [CHR 0x0A]"
  let ?toks = "[''refSecond=555'', ''refuSecond=10'', ''addresses={12 97}'', ''offsets={3 7}'',
                ''window={1 0}'']"
  let ?data = "[''refSecond'' \<mapsto> VInt 555, ''refuSecond'' \<mapsto> VInt 10,
                ''addresses'' \<mapsto> VList [12, 97], ''offsets'' \<mapsto> VList [3, 7],
                ''window'' \<mapsto> VList [1, 0]]"
  have s1: "py_strip ?l1 = ''a|b|c''" and s2: "py_strip ?l2 = ''t|x|m|IkT3|'' @ ?t3 @ ''|z''"
    by (simp_all add: py_strip_def py_isspace_def)
  have p1: "process_line 97 st ?l1 = Inr st" for st
    by (simp add: process_line_def s1 del: append.simps)
  have c2: "py_split CHR ''|'' (''t|x|m|IkT3|'' @ ?t3 @ ''|z'') =
      [''t'', ''x'', ''m'', ''IkT3'', ?t3, ''z'']"
    by simp
  have t: "GetT3RequestInfo ?t3 (Some '' '') = ?toks"
    by (simp add: GetT3RequestInfo_def)
  have g: "address_pieces ''addresses={12 97}'' = Inr [''12'', ''97'']"
    by (simp add: address_pieces_def py_strip_chars_def)
  have s: "py_str_int 97 = ''97''" "py_str_int 555 = ''555''" "py_str_int 10 = ''10''"
    "py_str_int 7 = ''7''" "py_str_int 0 = ''0''"
    by (simp_all add: py_str_int_def digits_of_nat.simps)
  have sp: "py_strip ''555'' = ''555''" "py_strip ''10'' = ''10''"
    by (rule py_strip_plain; simp add: py_isspace_def)+
  have d: "decode_value ''555'' = Inr (VInt 555)" "decode_value ''10'' = Inr (VInt 10)"
    by (simp_all add: decode_value_def py_float_555 py_float_10 py_int_of_float_def)
  have dl: "decode_value ''{12 97}'' = Inr (VList [12, 97])"
    "decode_value ''{3 7}'' = Inr (VList [3, 7])" "decode_value ''{1 0}'' = Inr (VList [1, 0])"
    by code_simp+
  have dec: "OrganizeT3Info ?toks = Inr ?data"
    using OrganizeT3Info_loop_token[of "''refSecond''" "''555''"]
      OrganizeT3Info_loop_token[of "''refuSecond''" "''10''"]
      OrganizeT3Info_loop_token[of "''addresses''" "''{12 97}''"]
      OrganizeT3Info_loop_token[of "''offsets''" "''{3 7}''"]
      OrganizeT3Info_loop_token[of "''window''" "''{1 0}''"]
      py_strip_braces[of "''12 97''"] py_strip_braces[of "''3 7''"] py_strip_braces[of "''1 0''"]
    by (simp add: OrganizeT3Info_def sp d dl del: OrganizeT3Info_loop.simps(2))
  have "\<forall>j<1::nat. [12, 97 :: int] ! j \<noteq> 97" by simp
  from py_index_first[of 1 "[12, 97]" 97, OF _ _ this]
  have "GetLetyInfo ?toks 97 = Inr [VInt 555, VInt 10, VInt 7, VInt 0]"
    by (simp add: GetLetyInfo_def dec GetLetyInfo_data_def py_lookup_def py_getitem_def)
  then have "process_t3 97 st ?t3 =
      Inr (st\<lparr>letyNum := letyNum st + 1,
              fileout := fileout st @ [''555, 10, 7, 0'' @ [CHR 0x0A]]\<rparr>)" for st
    by (simp add: process_t3_def t g s py_str_def)
  then have p2: "process_line 97 st ?l2 =
      Inr (st\<lparr>letyNum := letyNum st + 1,
              fileout := fileout st @ [''555, 10, 7, 0'' @ [CHR 0x0A]]\<rparr>)" for st
    unfolding process_line_def s2 c2 by simp
  have "ParseIkLog_lines [?l1, ?l2] 97 =
     (\<lparr>fileout = [''#gpsSec, gpsMicroSec, offset, window'' @ [CHR 0x0A],
                 ''555, 10, 7, 0'' @ [CHR 0x0A]],
      letyNum = 1\<rparr>, None)"
    unfolding ParseIkLog_lines_def ParseIkLog_loop.simps p1 p2 by simp
  then show ?thesis by simp
qed

end
